theory Spec2Isabelle
  imports Main
begin

section \<open>Values\<close>

text \<open>
  The configuration engine (\<^verbatim>\<open>source/metrics/engine/config.ts\<close>) works on the untyped
  tree that the YAML loader returns and on what the schemas make of it.  A value is one of
  JavaScript's \<^verbatim>\<open>undefined\<close>, \<^verbatim>\<open>null\<close>, a boolean, a number, a string, an array, a plain
  object, or an instance of the class \<^verbatim>\<open>Secret\<close> holding the value it wraps.

  \<^item> An object is the list of its own enumerable properties in insertion order; the keys of
    an object are distinct.  (JavaScript lists array-index keys before the other keys; the
    model keeps insertion order throughout.  Keys named \<^verbatim>\<open>__proto__\<close>, the properties
    inherited from \<^verbatim>\<open>Object.prototype\<close>, dates and YAML aliases that make two places of
    the document share one node are outside the model.)
  \<^item> Numbers are integers: every number the schemas of this file constrain is a count, a
    port or a whole number of seconds.
  \<^item> The class \<^verbatim>\<open>Secret\<close> lives in \<^verbatim>\<open>@utils/secret.ts\<close>; only \<^verbatim>\<open>new Secret(value)\<close> and
    \<^verbatim>\<open>instanceof Secret\<close> are used here, so an instance is the constructor applied to the
    wrapped value, without own enumerable properties.
\<close>

datatype jv =
    Undef
  | Null
  | Bool bool
  | Num int
  | Str string
  | Arr "jv list"
  | Obj "(string \<times> jv) list"
  | Secret jv

type_synonym entries = "(string \<times> jv) list"

text \<open>\<^verbatim>\<open>!value\<close> is false exactly on the truthy values.\<close>

fun truthy :: "jv \<Rightarrow> bool" where
  "truthy Undef = False"
| "truthy Null = False"
| "truthy (Bool b) = b"
| "truthy (Num n) = (n \<noteq> 0)"
| "truthy (Str s) = (s \<noteq> [])"
| "truthy (Arr xs) = True"
| "truthy (Obj es) = True"
| "truthy (Secret v) = True"

text \<open>\<^verbatim>\<open>typeof value === "object"\<close> (which holds of \<^verbatim>\<open>null\<close> too).\<close>

fun typeof_object :: "jv \<Rightarrow> bool" where
  "typeof_object Null = True"
| "typeof_object (Arr xs) = True"
| "typeof_object (Obj es) = True"
| "typeof_object (Secret v) = True"
| "typeof_object v = False"

text \<open>Decimal digits of an array index, as \<^verbatim>\<open>Object.keys\<close> names the slots of an array.\<close>

fun show_nat :: "nat \<Rightarrow> string" where
  "show_nat n = (if n < 10 then [''0123456789'' ! n]
                 else show_nat (n div 10) @ [''0123456789'' ! (n mod 10)])"

declare show_nat.simps [simp del]

definition show_int :: "int \<Rightarrow> string" where
  "show_int i = (if i < 0 then CHR ''-'' # show_nat (nat (- i)) else show_nat (nat i))"

text \<open>
  The own enumerable string-keyed properties of a value, as \<^verbatim>\<open>Object.keys\<close>, a spread
  \<^verbatim>\<open>{...value}\<close> and \<^verbatim>\<open>Object.assign\<close> see them: the entries of an object, the slots of an
  array, the characters of a string, nothing for the other values.
\<close>

fun own_entries :: "jv \<Rightarrow> entries" where
  "own_entries (Obj es) = es"
| "own_entries (Arr xs) = map (\<lambda>i. (show_nat i, xs ! i)) [0..<length xs]"
| "own_entries (Str s) = map (\<lambda>i. (show_nat i, Str [s ! i])) [0..<length s]"
| "own_entries v = []"

definition object_keys :: "jv \<Rightarrow> string list" where
  "object_keys v = map fst (own_entries v)"

text \<open>\<^verbatim>\<open>key in value\<close> and \<^verbatim>\<open>Object.hasOwn(value, key)\<close> on the values of the model.\<close>

definition has_key :: "jv \<Rightarrow> string \<Rightarrow> bool" where
  "has_key v k = (k \<in> set (object_keys v))"

text \<open>Property access \<^verbatim>\<open>value[key]\<close>: \<^verbatim>\<open>undefined\<close> where the property is absent.\<close>

definition lookup :: "entries \<Rightarrow> string \<Rightarrow> jv" where
  "lookup es k = (case map_of es k of None \<Rightarrow> Undef | Some v \<Rightarrow> v)"

definition get :: "jv \<Rightarrow> string \<Rightarrow> jv" where
  "get v k = lookup (own_entries v) k"

text \<open>\<^verbatim>\<open>delete record[key]\<close>.\<close>

definition delete :: "string \<Rightarrow> (string \<times> 'a) list \<Rightarrow> (string \<times> 'a) list" where
  "delete k es = filter (\<lambda>e. fst e \<noteq> k) es"

text \<open>
  \<^verbatim>\<open>record[key] = value\<close>: an existing property keeps its place, a new one goes last.
\<close>

fun put :: "string \<Rightarrow> 'a \<Rightarrow> (string \<times> 'a) list \<Rightarrow> (string \<times> 'a) list" where
  "put k v [] = [(k, v)]"
| "put k v ((k', v') # es) = (if k' = k then (k, v) # es else (k', v') # put k v es)"

text \<open>
  \<^verbatim>\<open>Object.assign(target, source)\<close> and the spread \<^verbatim>\<open>{...target, ...source}\<close>: the
  properties of the source are written into the target one after the other.
\<close>

fun assign :: "(string \<times> 'a) list \<Rightarrow> (string \<times> 'a) list \<Rightarrow> (string \<times> 'a) list" where
  "assign target [] = target"
| "assign target ((k, v) # source) = assign (put k v target) source"

section \<open>Deep merge\<close>

text \<open>
  \<^verbatim>\<open>deepMerge(record, other, { arrays: "replace" })\<close> of the Deno standard library
  (\<^verbatim>\<open>std/collections/deep_merge.ts\<close>): the result has the keys of \<^verbatim>\<open>record\<close> followed by
  the new keys of \<^verbatim>\<open>other\<close>.  A key that \<^verbatim>\<open>other\<close> does not own keeps the value of
  \<^verbatim>\<open>record\<close>.  Where both values are plain objects they are merged recursively; in every
  other case (arrays under \<^verbatim>\<open>"replace"\<close>, scalars, \<^verbatim>\<open>null\<close>, class instances) the value of
  \<^verbatim>\<open>other\<close> replaces the value of \<^verbatim>\<open>record\<close>.
\<close>

fun mergeObjects :: "jv \<Rightarrow> jv \<Rightarrow> jv"
  and mergeOwn :: "entries \<Rightarrow> entries \<Rightarrow> entries" where
  "mergeObjects (Obj left) (Obj right) =
     Obj (mergeOwn left right @ filter (\<lambda>e. fst e \<notin> fst ` set left) right)"
| "mergeObjects a b = b"
| "mergeOwn [] other = []"
| "mergeOwn ((k, a) # record) other =
     (k, case map_of other k of None \<Rightarrow> a | Some b \<Rightarrow> mergeObjects a b) # mergeOwn record other"

definition deepMerge :: "entries \<Rightarrow> jv \<Rightarrow> entries" where
  "deepMerge record other =
     mergeOwn record (own_entries other)
       @ filter (\<lambda>e. fst e \<notin> fst ` set record) (own_entries other)"

text \<open>
  \<^verbatim>\<open>merge(...objects)\<close>: the layers are merged into an empty object from first to last;
  a layer that is \<^verbatim>\<open>undefined\<close> or \<^verbatim>\<open>null\<close> counts as \<^verbatim>\<open>{}\<close>.
\<close>

definition nullish :: "jv \<Rightarrow> bool" where
  "nullish v = (v = Undef \<or> v = Null)"

definition merge :: "jv list \<Rightarrow> entries" where
  "merge objects =
     foldl (\<lambda>result object. deepMerge result (if nullish object then Obj [] else object))
       [] objects"

section \<open>Syntactic sugar\<close>

text \<open>
  \<^verbatim>\<open>sugar(value, keys)\<close>: a declaration without \<^verbatim>\<open>id\<close> and without non-empty \<^verbatim>\<open>args\<close> may
  name its component by the one key that is not among \<^verbatim>\<open>keys\<close>.  With no such key the
  destructuring \<^verbatim>\<open>[id, ...extras] = []\<close> leaves \<^verbatim>\<open>id\<close> undefined, and \<^verbatim>\<open>record[id]\<close> is then
  the property named \<^verbatim>\<open>"undefined"\<close>.
\<close>

definition sugar :: "jv \<Rightarrow> string list \<Rightarrow> jv" where
  "sugar v keys =
     (if \<not> truthy v \<or> \<not> typeof_object v \<or> has_key v ''id'' then v
      else
        let record = own_entries v in
        if truthy (lookup record ''args'') \<and> typeof_object (lookup record ''args'')
           \<and> length (object_keys (lookup record ''args'')) \<noteq> 0
        then v
        else
          (case filter (\<lambda>key. key \<notin> set keys) (map fst record) of
             [] \<Rightarrow>
               Obj (assign (delete ''undefined'' record)
                      [(''id'', Undef), (''args'', lookup record ''undefined'')])
           | [name] \<Rightarrow>
               Obj (assign (delete name record)
                      [(''id'', Str name), (''args'', lookup record name)])
           | name # extras \<Rightarrow>
               Obj (assign [(''id'', Str '''')] (own_entries v))))"

section \<open>Secrets\<close>

text \<open>
  \<^verbatim>\<open>is.union([is.unknown(), is.instanceof(Secret)]).transform(...)\<close>: the first member of
  the union accepts every value, so the schema never fails and is the transform alone.
\<close>

fun is_Secret :: "jv \<Rightarrow> bool" where
  "is_Secret (Secret v) = True"
| "is_Secret v = False"

definition secret_transform :: "jv \<Rightarrow> jv" where
  "secret_transform v = (if is_Secret v then v else Secret v)"


section \<open>Schemas\<close>

text \<open>
  The schemas are built with the validation library \<^verbatim>\<open>zod\<close> (\<^verbatim>\<open>is\<close> in the source).  A
  schema is a value that the source extends, picks from, omits from and makes partial, so
  it is a datatype here, and \<open>parse\<close> interprets it.

  A parse ends in one of three ways: a value; a list of issues (\<^verbatim>\<open>safeParse\<close> reports
  \<^verbatim>\<open>success: false\<close>, \<^verbatim>\<open>parse\<close> throws them); or an exception thrown by a callback while the
  parse runs, which no schema catches.  The issues themselves are not modelled.
\<close>

datatype error = Issues | Exception

datatype unknownKeys = Strip | Strict | Passthrough

datatype schema =
    ZodUnknown
  | ZodString "(jv \<Rightarrow> string) option" "(string \<Rightarrow> bool) list"
  | ZodNumber "(int \<Rightarrow> bool) list"
  | ZodBoolean
  | ZodEnum "string list"
  | ZodLiteralNull
  | ZodInstanceofSecret
  | ZodObject "(string \<times> schema) list" unknownKeys
  | ZodArray schema
  | ZodRecord schema
  | ZodUnion "schema list"
  | ZodOptional schema
  | ZodNullable schema
  | ZodDefault schema "error + jv"
  | ZodTransform schema "jv \<Rightarrow> jv"
  | ZodRefine schema "jv \<Rightarrow> bool"
  | ZodPreprocess "jv \<Rightarrow> error + jv" schema

text \<open>
  The results of the members of an object, an array or a record, which are all parsed
  before the results are put together: an exception wins over issues, issues over values.
\<close>

fun collect :: "(error + 'a) list \<Rightarrow> error + 'a list" where
  "collect [] = Inr []"
| "collect (Inl Exception # rs) = Inl Exception"
| "collect (Inl Issues # rs) = (case collect rs of Inl Exception \<Rightarrow> Inl Exception | _ \<Rightarrow> Inl Issues)"
| "collect (Inr x # rs) = (case collect rs of Inl e \<Rightarrow> Inl e | Inr xs \<Rightarrow> Inr (x # xs))"

text \<open>
  A union tries its options in order and returns the first valid result; an exception
  thrown by an option ends the parse there.
\<close>

fun first_valid :: "(jv \<Rightarrow> error + jv) list \<Rightarrow> jv \<Rightarrow> error + jv" where
  "first_valid [] v = Inl Issues"
| "first_valid (option # options) v =
     (case option v of
        Inr x \<Rightarrow> Inr x
      | Inl Exception \<Rightarrow> Inl Exception
      | Inl Issues \<Rightarrow> first_valid options v)"

text \<open>
  What \<^verbatim>\<open>zod\<close> takes for an object: a plain object or a class instance, not an array and not
  \<^verbatim>\<open>null\<close>.
\<close>

fun object_entries :: "jv \<Rightarrow> entries option" where
  "object_entries (Obj es) = Some es"
| "object_entries (Secret v) = Some []"
| "object_entries v = None"

text \<open>
  An object schema parses every key of its shape, in the order of the shape.  The output
  has a key of the shape when its value is defined or the input has the key; \<^verbatim>\<open>passthrough\<close>
  appends the other keys of the input, \<^verbatim>\<open>strict\<close> reports them, the default drops them.
\<close>

definition object_output :: "string list \<Rightarrow> unknownKeys \<Rightarrow> entries \<Rightarrow> jv list \<Rightarrow> error + jv" where
  "object_output shapeKeys u es vs =
     (let pairs = filter (\<lambda>(k, v). v \<noteq> Undef \<or> k \<in> fst ` set es) (zip shapeKeys vs);
          extraKeys = filter (\<lambda>(k, v). k \<notin> set shapeKeys) es
      in case u of
           Strip \<Rightarrow> Inr (Obj pairs)
         | Passthrough \<Rightarrow> Inr (Obj (pairs @ extraKeys))
         | Strict \<Rightarrow> if extraKeys = [] then Inr (Obj pairs) else Inl Issues)"

fun parse :: "schema \<Rightarrow> jv \<Rightarrow> error + jv" where
  "parse ZodUnknown v = Inr v"
| "parse (ZodString coerce checks) v =
     (case (case coerce of None \<Rightarrow> v | Some String \<Rightarrow> Str (String v)) of
        Str s \<Rightarrow> if list_all (\<lambda>check. check s) checks then Inr (Str s) else Inl Issues
      | _ \<Rightarrow> Inl Issues)"
| "parse (ZodNumber checks) v =
     (case v of
        Num n \<Rightarrow> if list_all (\<lambda>check. check n) checks then Inr (Num n) else Inl Issues
      | _ \<Rightarrow> Inl Issues)"
| "parse ZodBoolean v = (case v of Bool b \<Rightarrow> Inr (Bool b) | _ \<Rightarrow> Inl Issues)"
| "parse (ZodEnum values) v =
     (case v of
        Str s \<Rightarrow> if s \<in> set values then Inr (Str s) else Inl Issues
      | _ \<Rightarrow> Inl Issues)"
| "parse ZodLiteralNull v = (if v = Null then Inr Null else Inl Issues)"
| "parse ZodInstanceofSecret v = (if is_Secret v then Inr v else Inl Issues)"
| "parse (ZodObject shape u) v =
     (case object_entries v of
        None \<Rightarrow> Inl Issues
      | Some es \<Rightarrow>
          (case collect (map (\<lambda>(k, s). parse s (lookup es k)) shape) of
             Inl e \<Rightarrow> Inl e
           | Inr vs \<Rightarrow> object_output (map fst shape) u es vs))"
| "parse (ZodArray element) v =
     (case v of
        Arr xs \<Rightarrow>
          (case collect (map (parse element) xs) of
             Inl e \<Rightarrow> Inl e
           | Inr ys \<Rightarrow> Inr (Arr ys))
      | _ \<Rightarrow> Inl Issues)"
| "parse (ZodRecord valueType) v =
     (case object_entries v of
        None \<Rightarrow> Inl Issues
      | Some es \<Rightarrow>
          (case collect (map (\<lambda>(k, x). parse valueType x) es) of
             Inl e \<Rightarrow> Inl e
           | Inr ys \<Rightarrow> Inr (Obj (zip (map fst es) ys))))"
| "parse (ZodUnion options) v = first_valid (map parse options) v"
| "parse (ZodOptional s) v = (if v = Undef then Inr Undef else parse s v)"
| "parse (ZodNullable s) v = (if v = Null then Inr Null else parse s v)"
| "parse (ZodDefault s defaultValue) v =
     (if v = Undef then (case defaultValue of Inl e \<Rightarrow> Inl e | Inr d \<Rightarrow> parse s d)
      else parse s v)"
| "parse (ZodTransform s transform) v =
     (case parse s v of Inl e \<Rightarrow> Inl e | Inr x \<Rightarrow> Inr (transform x))"
| "parse (ZodRefine s check) v =
     (case parse s v of Inl e \<Rightarrow> Inl e | Inr x \<Rightarrow> if check x then Inr x else Inl Issues)"
| "parse (ZodPreprocess preprocess s) v =
     (case preprocess v of Inl e \<Rightarrow> Inl e | Inr x \<Rightarrow> parse s x)"


subsection \<open>The host\<close>

text \<open>
  What the module reads from its host: the time zones that \<^verbatim>\<open>Intl.supportedValuesOf\<close>
  lists, the zone that \<^verbatim>\<open>Intl.DateTimeFormat().resolvedOptions()\<close> resolves, the value of
  \<^verbatim>\<open>env.get("METRICS_GITHUB_TOKEN")\<close>, whether \<^verbatim>\<open>new URL(string)\<close> succeeds (the check behind
  \<^verbatim>\<open>is.string().url()\<close>), and the text that \<^verbatim>\<open>String\<close> makes of a \<^verbatim>\<open>Secret\<close>.
\<close>

record host =
  supportedTimeZones :: "string list"
  resolvedTimeZone :: string
  METRICS_GITHUB_TOKEN :: jv
  url :: "string \<Rightarrow> bool"
  redacted :: string

subsection \<open>Operations on object schemas\<close>

text \<open>
  \<^verbatim>\<open>extend\<close> and \<^verbatim>\<open>merge\<close> spread the new shape over the old one; \<^verbatim>\<open>merge\<close> takes the
  treatment of unknown keys from its argument.  \<^verbatim>\<open>pick\<close> follows the order of its mask and
  skips a key that the shape does not have.  A mask \<^verbatim>\<open>{ key: true, ... }\<close> is the list of its
  keys.  These operations exist on object schemas only.
\<close>

fun entries_of :: "schema \<Rightarrow> (string \<times> schema) list" where
  "entries_of (ZodObject shape u) = shape"

fun unknownKeys_of :: "schema \<Rightarrow> unknownKeys" where
  "unknownKeys_of (ZodObject shape u) = u"

definition extend :: "schema \<Rightarrow> (string \<times> schema) list \<Rightarrow> schema" where
  "extend s augmentation = ZodObject (assign (entries_of s) augmentation) (unknownKeys_of s)"

definition merge_schema :: "schema \<Rightarrow> schema \<Rightarrow> schema" where
  "merge_schema s merging =
     ZodObject (assign (entries_of s) (entries_of merging)) (unknownKeys_of merging)"

definition omit :: "schema \<Rightarrow> string list \<Rightarrow> schema" where
  "omit s keys = ZodObject (filter (\<lambda>(k, x). k \<notin> set keys) (entries_of s)) (unknownKeys_of s)"

definition pick :: "schema \<Rightarrow> string list \<Rightarrow> schema" where
  "pick s keys =
     ZodObject
       (concat (map (\<lambda>k. case map_of (entries_of s) k of None \<Rightarrow> [] | Some x \<Rightarrow> [(k, x)]) keys))
       (unknownKeys_of s)"

definition partial :: "schema \<Rightarrow> schema" where
  "partial s = ZodObject (map (\<lambda>(k, x). (k, ZodOptional x)) (entries_of s)) (unknownKeys_of s)"

fun deepPartial :: "schema \<Rightarrow> schema" where
  "deepPartial (ZodObject shape u) =
     ZodObject (map (\<lambda>(k, s). (k, ZodOptional (deepPartial s))) shape) u"
| "deepPartial (ZodArray element) = ZodArray (deepPartial element)"
| "deepPartial (ZodOptional s) = ZodOptional (deepPartial s)"
| "deepPartial (ZodNullable s) = ZodNullable (deepPartial s)"
| "deepPartial s = s"

definition strict :: "schema \<Rightarrow> schema" where
  "strict s = ZodObject (entries_of s) Strict"

definition passthrough :: "schema \<Rightarrow> schema" where
  "passthrough s = ZodObject (entries_of s) Passthrough"

text \<open>\<^verbatim>\<open>schema.shape.key\<close>.\<close>

definition shape_of :: "schema \<Rightarrow> string \<Rightarrow> schema" where
  "shape_of s k = the (map_of (entries_of s) k)"

text \<open>\<^verbatim>\<open>schema.parse(value)\<close> throws the issues that \<^verbatim>\<open>safeParse\<close> returns.\<close>

definition throwing :: "error + jv \<Rightarrow> error + jv" where
  "throwing r = (case r of Inl e \<Rightarrow> Inl Exception | Inr v \<Rightarrow> Inr v)"

subsection \<open>Checks and coercion\<close>

definition min_length :: "nat \<Rightarrow> string \<Rightarrow> bool" where
  "min_length n s = (n \<le> length s)"

definition int_check :: "int \<Rightarrow> bool" where
  "int_check n = True"

definition positive :: "int \<Rightarrow> bool" where
  "positive n = (0 < n)"

definition at_least :: "int \<Rightarrow> int \<Rightarrow> bool" where
  "at_least m n = (m \<le> n)"

text \<open>\<^verbatim>\<open>String(value)\<close>, the coercion of \<^verbatim>\<open>is.coerce.string()\<close>.\<close>

fun join :: "string list \<Rightarrow> string" where
  "join [] = []"
| "join [s] = s"
| "join (s # t # ss) = s @ '','' @ join (t # ss)"

fun js_String :: "host \<Rightarrow> jv \<Rightarrow> string" where
  "js_String h Undef = ''undefined''"
| "js_String h Null = ''null''"
| "js_String h (Bool b) = (if b then ''true'' else ''false'')"
| "js_String h (Num n) = show_int n"
| "js_String h (Str s) = s"
| "js_String h (Arr xs) = join (map (\<lambda>x. if nullish x then [] else js_String h x) xs)"
| "js_String h (Obj es) = ''[object Object]''"
| "js_String h (Secret v) = redacted h"

subsection \<open>The schemas of the engine\<close>

text \<open>
  The source names its private schemas with a leading underscore; here \<^verbatim>\<open>_plugin\<close> is
  \<open>plugin'\<close>, \<^verbatim>\<open>_preset_plugin\<close> is \<open>preset_plugin'\<close> and so on.
\<close>

definition entities :: "string list" where
  "entities = [''user'', ''organization'', ''repository'']"

definition timezones :: "host \<Rightarrow> string list" where
  "timezones h = supportedTimeZones h"

definition loglevel :: string where
  "loglevel = ''trace''"

definition secret :: schema where
  "secret = ZodTransform (ZodUnion [ZodUnknown, ZodInstanceofSecret]) secret_transform"

definition internal :: schema where
  "internal = ZodObject
     [(''logs'', ZodEnum [''none'', ''error'', ''warn'', ''info'', ''message'', ''debug'', ''trace''])]
     Strip"

definition component :: schema where
  "component = extend internal
     [(''id'', ZodString None [min_length 1]),
      (''args'', ZodRecord ZodUnknown),
      (''retries'', ZodObject
         [(''attempts'', ZodNumber [int_check, positive]),
          (''delay'', ZodNumber [at_least 0])] Strip),
      (''fatal'', ZodBoolean)]"

definition requests :: "host \<Rightarrow> schema" where
  "requests h = extend internal
     [(''mock'', ZodBoolean),
      (''api'', ZodString None [url h]),
      (''token'', secret),
      (''timezone'', ZodRefine (ZodString None [min_length 1])
                       (\<lambda>value. value \<in> Str ` set (timezones h)))]"

definition plugin_without_processors' :: "host \<Rightarrow> schema" where
  "plugin_without_processors' h = extend (merge_schema component (requests h))
     [(''handle'', ZodNullable (ZodString (Some (js_String h)) [min_length 1])),
      (''entity'', ZodEnum entities),
      (''template'', ZodUnion
         [ZodLiteralNull,
          ZodString (Some (js_String h)) [url h],
          ZodString (Some (js_String h)) [min_length 1]])]"

definition processor' :: "host \<Rightarrow> schema" where
  "processor' h = extend component [(''parent'', plugin_without_processors' h)]"

definition processor_without_parent' :: "host \<Rightarrow> schema" where
  "processor_without_parent' h = omit (processor' h) [''parent'']"

definition preset_processor' :: "host \<Rightarrow> schema" where
  "preset_processor' h = ZodObject
     [(''args'', ZodDefault (shape_of (processor' h) ''args'') (Inr (Obj []))),
      (''logs'', ZodDefault (shape_of (processor' h) ''logs'') (Inr (Str loglevel))),
      (''fatal'', ZodDefault (shape_of (processor' h) ''fatal'') (Inr (Bool False))),
      (''retries'', ZodDefault (ZodObject
         [(''attempts'',
             ZodDefault (shape_of (shape_of (processor' h) ''retries'') ''attempts'') (Inr (Num 1))),
          (''delay'',
             ZodDefault (shape_of (shape_of (processor' h) ''retries'') ''delay'') (Inr (Num 120)))]
         Strip) (Inr (Obj [])))]
     Strip"

text \<open>
  \<^verbatim>\<open>[...Object.keys(_preset_processor.parse({}))]\<close>, computed when the module is loaded (a
  parse that throws there leaves no module at all; the model gives the empty list).
\<close>

definition processor_keys' :: "host \<Rightarrow> string list" where
  "processor_keys' h =
     (case parse (preset_processor' h) (Obj []) of Inr v \<Rightarrow> object_keys v | Inl e \<Rightarrow> [])"

definition processor :: "host \<Rightarrow> schema" where
  "processor h = ZodPreprocess
     (\<lambda>value. throwing (parse (passthrough (preset_processor' h))
                          (sugar value (processor_keys' h))))
     (strict (processor_without_parent' h))"

definition plugin' :: "host \<Rightarrow> schema" where
  "plugin' h = extend (plugin_without_processors' h) [(''processors'', ZodArray (processor h))]"

definition plugin_nop_removed_keys' :: "string list" where
  "plugin_nop_removed_keys' = [''id'', ''args'', ''retries'', ''template'']"

definition plugin_nop' :: "host \<Rightarrow> schema" where
  "plugin_nop' h = ZodTransform (strict (omit (plugin' h) plugin_nop_removed_keys'))
     (\<lambda>value. Obj (assign (own_entries value) [(''template'', Null)]))"

definition preset_plugin' :: "host \<Rightarrow> schema" where
  "preset_plugin' h = ZodObject
     [(''args'', ZodDefault (shape_of (plugin' h) ''args'') (Inr (Obj []))),
      (''logs'', ZodDefault (shape_of (plugin' h) ''logs'') (Inr (Str loglevel))),
      (''api'', ZodDefault (shape_of (plugin' h) ''api'') (Inr (Str ''https://api.github.com''))),
      (''token'', ZodDefault (shape_of (plugin' h) ''token'') (Inr (METRICS_GITHUB_TOKEN h))),
      (''handle'', ZodDefault (shape_of (plugin' h) ''handle'') (Inr Null)),
      (''entity'', ZodDefault (shape_of (plugin' h) ''entity'') (Inr (Str ''user''))),
      (''template'', ZodDefault (shape_of (plugin' h) ''template'') (Inr (Str ''classic''))),
      (''timezone'', ZodDefault (shape_of (plugin' h) ''timezone'') (Inr (Str (resolvedTimeZone h)))),
      (''mock'', ZodDefault (shape_of (plugin' h) ''mock'') (Inr (Bool False))),
      (''processors'',
         ZodDefault (ZodArray (deepPartial (processor_without_parent' h))) (Inr (Arr []))),
      (''fatal'', ZodDefault (shape_of (plugin' h) ''fatal'') (Inr (Bool False))),
      (''retries'', ZodDefault (ZodObject
         [(''attempts'',
             ZodDefault (shape_of (shape_of (plugin' h) ''retries'') ''attempts'') (Inr (Num 3))),
          (''delay'',
             ZodDefault (shape_of (shape_of (plugin' h) ''retries'') ''delay'') (Inr (Num 120)))]
         Strip) (Inr (Obj [])))]
     Strip"

definition plugin_keys' :: "host \<Rightarrow> string list" where
  "plugin_keys' h =
     (case parse (preset_plugin' h) (Obj []) of Inr v \<Rightarrow> object_keys v | Inl e \<Rightarrow> [])"

text \<open>
  \<^verbatim>\<open>plugin\<close> first runs the strict schema of a declaration on the sugared value.  When that
  fails the value goes on as it came; otherwise \<^verbatim>\<open>preset\<close> is deleted from the parsed data.
\<close>

definition plugin :: "host \<Rightarrow> schema" where
  "plugin h = ZodPreprocess
     (\<lambda>value.
        case parse (strict (extend (preset_plugin' h)
                      [(''id'', shape_of (plugin' h) ''id''),
                       (''preset'', ZodOptional (ZodString None []))]))
               (sugar value (plugin_keys' h)) of
          Inl Issues \<Rightarrow> Inr value
        | Inl Exception \<Rightarrow> Inl Exception
        | Inr data \<Rightarrow> Inr (Obj (delete ''preset'' (own_entries data))))
     (plugin' h)"

definition plugin_nop :: "host \<Rightarrow> schema" where
  "plugin_nop h = ZodPreprocess
     (\<lambda>value.
        case parse (strict (extend (preset_plugin' h)
                      [(''preset'', ZodOptional (ZodString None []))])) value of
          Inl Issues \<Rightarrow> Inr value
        | Inl Exception \<Rightarrow> Inl Exception
        | Inr data \<Rightarrow>
            Inr (Obj (foldl (\<lambda>result key. delete key result) (own_entries data)
                        plugin_nop_removed_keys')))
     (plugin_nop' h)"

definition preset :: "host \<Rightarrow> schema" where
  "preset h = ZodObject
     [(''plugins'',
         ZodDefault (preset_plugin' h) (throwing (parse (preset_plugin' h) (Obj [])))),
      (''processors'',
         ZodDefault (preset_processor' h) (throwing (parse (preset_processor' h) (Obj []))))]
     Strip"

definition config' :: "host \<Rightarrow> schema" where
  "config' h = ZodObject
     [(''plugins'', ZodArray (ZodUnion [plugin h, plugin_nop h])),
      (''presets'', ZodRecord (preset h))]
     Strip"


section \<open>The cascade\<close>

text \<open>\<^verbatim>\<open>value?.key\<close>.\<close>

definition optional_get :: "jv \<Rightarrow> string \<Rightarrow> jv" where
  "optional_get v k = (if nullish v then Undef else get v k)"

text \<open>
  \<^verbatim>\<open>value.presets[name]\<close>: the name is turned into a property key, so that an absent
  \<^verbatim>\<open>preset\<close> looks the bundle called \<^verbatim>\<open>"undefined"\<close> up.
\<close>

definition bundle_of :: "host \<Rightarrow> entries \<Rightarrow> jv \<Rightarrow> jv" where
  "bundle_of h presets name = lookup presets (js_String h name)"

text \<open>
  The body of the inner loop, \<^verbatim>\<open>Object.assign(processor, merge(...))\<close>, for one element of
  \<^verbatim>\<open>plugin.processors\<close>.  The elements of a list that the plugin declares are objects (the
  first parse of \<^verbatim>\<open>config\<close> sees to it); a list that the plugin takes over from a preset may
  hold anything.  Reading \<^verbatim>\<open>processor.preset\<close> throws on \<^verbatim>\<open>null\<close>; \<^verbatim>\<open>Object.assign\<close> throws
  when it writes the first character of a non-empty string, and writes to a wrapper that
  is dropped for the other primitive values.  (What it would write into an element that
  is itself an array is not modelled: such an element is left as it is.)
\<close>

definition resolve_processor :: "host \<Rightarrow> entries \<Rightarrow> jv \<Rightarrow> jv \<Rightarrow> error + jv" where
  "resolve_processor h presets bundle element =
     (case element of
        Obj es \<Rightarrow>
          Inr (Obj (assign es (merge
            [get (lookup presets ''default'') ''processors'',
             optional_get bundle ''processors'',
             optional_get (bundle_of h presets (get element ''preset'')) ''processors'',
             element])))
      | Undef \<Rightarrow> Inl Exception
      | Null \<Rightarrow> Inl Exception
      | Str s \<Rightarrow> if s = [] then Inr element else Inl Exception
      | _ \<Rightarrow> Inr element)"

text \<open>
  The processors of a preset are shared, not copied: a plugin without a list of its own
  gets, through \<^verbatim>\<open>deepMerge\<close> and \<^verbatim>\<open>Object.assign\<close>, the very array of the bundle it takes it
  from, and the inner loop then changes the elements of that array in place.  The model
  writes the changed list back into the bundle and records in the plugin where its list
  lives.
\<close>

definition write_back :: "entries \<Rightarrow> string \<Rightarrow> jv \<Rightarrow> entries" where
  "write_back presets name processors =
     (let bundle = lookup presets name;
          plugins = get bundle ''plugins''
      in put name
           (Obj (put ''plugins'' (Obj (put ''processors'' processors (own_entries plugins)))
                  (own_entries bundle)))
           presets)"

definition shared_processors :: "entries \<Rightarrow> string \<Rightarrow> jv" where
  "shared_processors presets name = get (get (lookup presets name) ''plugins'') ''processors''"

text \<open>
  The body of the outer loop for one plugin: the presets after it, the plugin after it,
  and the name of the bundle whose list of processors the plugin shares, if it shares one.
\<close>

definition resolve_plugin ::
  "host \<Rightarrow> entries \<Rightarrow> jv \<Rightarrow> error + (entries \<times> entries \<times> string option)" where
  "resolve_plugin h presets declaration =
     (let bundle = bundle_of h presets (get declaration ''preset'');
          merged = merge
            [get (lookup presets ''default'') ''plugins'',
             optional_get bundle ''plugins'',
             declaration];
          assigned = assign (own_entries declaration) merged
      in case lookup assigned ''processors'' of
           Undef \<Rightarrow> Inr (presets, put ''processors'' (Arr []) assigned, None)
         | Null \<Rightarrow> Inr (presets, put ''processors'' (Arr []) assigned, None)
         | Arr processors \<Rightarrow>
             (case collect (map (resolve_processor h presets bundle) processors) of
                Inl e \<Rightarrow> Inl e
              | Inr resolved \<Rightarrow>
                  if has_key declaration ''processors''
                  then Inr (presets, put ''processors'' (Arr resolved) assigned, None)
                  else
                    let name =
                      (if has_key (optional_get bundle ''plugins'') ''processors''
                       then js_String h (get declaration ''preset'') else ''default'')
                    in Inr (write_back presets name (Arr resolved),
                            put ''processors'' (Arr resolved) assigned, Some name))
         | Str s \<Rightarrow> if s = [] then Inr (presets, assigned, None) else Inl Exception
         | _ \<Rightarrow> Inl Exception)"

fun resolve_plugins ::
  "host \<Rightarrow> entries \<Rightarrow> jv list \<Rightarrow> error + (entries \<times> (entries \<times> string option) list)" where
  "resolve_plugins h presets [] = Inr (presets, [])"
| "resolve_plugins h presets (declaration # plugins) =
     (case resolve_plugin h presets declaration of
        Inl e \<Rightarrow> Inl e
      | Inr (presets', resolved, shared) \<Rightarrow>
          (case resolve_plugins h presets' plugins of
             Inl e \<Rightarrow> Inl e
           | Inr (presets'', rest) \<Rightarrow> Inr (presets'', (resolved, shared) # rest)))"

text \<open>A plugin as the preprocess returns it: a shared list is read where it lives.\<close>

definition returned_plugin :: "entries \<Rightarrow> entries \<times> string option \<Rightarrow> jv" where
  "returned_plugin presets r =
     (case snd r of
        None \<Rightarrow> Obj (fst r)
      | Some name \<Rightarrow> Obj (put ''processors'' (shared_processors presets name) (fst r)))"

text \<open>The schema that the preprocess of \<^verbatim>\<open>config\<close> parses its input with.\<close>

definition config_value :: schema where
  "config_value = ZodObject
     [(''plugins'', ZodDefault
         (ZodArray (ZodObject
            [(''preset'', ZodOptional (ZodString None [])),
             (''processors'', ZodOptional (ZodArray (ZodObject
                [(''preset'', ZodOptional (ZodString None []))] Passthrough)))]
            Passthrough))
         (Inr (Arr []))),
      (''presets'', ZodDefault (ZodRecord (ZodRecord ZodUnknown)) (Inr (Obj [])))]
     Passthrough"

fun array_items :: "jv \<Rightarrow> jv list" where
  "array_items (Arr xs) = xs"
| "array_items v = []"

definition config_preprocess :: "host \<Rightarrow> jv \<Rightarrow> error + jv" where
  "config_preprocess h v =
     (case throwing (parse config_value v) of
        Inl e \<Rightarrow> Inl e
      | Inr value \<Rightarrow>
          (case (if \<not> truthy (get (get value ''presets'') ''default'')
                 then (case throwing (parse (preset h) (Obj [])) of
                         Inl e \<Rightarrow> Inl e
                       | Inr d \<Rightarrow> Inr (put ''default'' d (own_entries (get value ''presets''))))
                 else Inr (own_entries (get value ''presets''))) of
             Inl e \<Rightarrow> Inl e
           | Inr presets \<Rightarrow>
               (case resolve_plugins h presets (array_items (get value ''plugins'')) of
                  Inl e \<Rightarrow> Inl e
                | Inr (presets', plugins) \<Rightarrow>
                    Inr (Obj (put ''presets'' (Obj presets')
                               (put ''plugins'' (Arr (map (returned_plugin presets') plugins))
                                  (own_entries value)))))))"

definition config :: "host \<Rightarrow> schema" where
  "config h = ZodPreprocess (config_preprocess h) (config' h)"

section \<open>Web requests\<close>

definition webrequest :: "host \<Rightarrow> schema" where
  "webrequest h = ZodObject
     [(''mock'', ZodDefault ZodBoolean (Inr (Bool False))),
      (''plugins'', ZodDefault
         (ZodArray (partial (extend
            (pick (plugin' h)
               [''id'', ''timezone'', ''handle'', ''fatal'', ''entity'', ''template'', ''args'',
                ''preset''])
            [(''processors'', ZodArray (extend
                (partial (pick (processor' h) [''id'', ''fatal'', ''args'']))
                [(''id'', shape_of (plugin' h) ''id'')]))])))
         (Inr (Arr [])))]
     Strip"

section \<open>Loading the module\<close>

text \<open>
  The module computes \<^verbatim>\<open>_plugin_keys\<close> from \<^verbatim>\<open>_preset_plugin.parse({})\<close> while it is loaded:
  on a host where this parse throws there is no engine to speak of.
\<close>

definition loads :: "host \<Rightarrow> bool" where
  "loads h = (case parse (preset_plugin' h) (Obj []) of Inr v \<Rightarrow> True | Inl e \<Rightarrow> False)"

text \<open>
  The defaults of the two preset schemas, as \<^verbatim>\<open>_preset_plugin.parse({})\<close> and
  \<^verbatim>\<open>_preset_processor.parse({})\<close> return them on a host where the module loads.
\<close>

definition plugin_defaults :: "host \<Rightarrow> jv" where
  "plugin_defaults h = Obj [(''args'', Obj []), (''logs'', Str ''trace''),
           (''api'', Str ''https://api.github.com''),
           (''token'', secret_transform (METRICS_GITHUB_TOKEN h)), (''handle'', Null),
           (''entity'', Str ''user''), (''template'', Str ''classic''),
           (''timezone'', Str (resolvedTimeZone h)), (''mock'', Bool False),
           (''processors'', Arr []), (''fatal'', Bool False),
           (''retries'', Obj [(''attempts'', Num 3), (''delay'', Num 120)])]"

definition processor_defaults :: jv where
  "processor_defaults = Obj [(''args'', Obj []), (''logs'', Str ''trace''), (''fatal'', Bool False),
     (''retries'', Obj [(''attempts'', Num 1), (''delay'', Num 120)])]"

text \<open>The bundle \<^verbatim>\<open>preset.parse({})\<close> that becomes \<^verbatim>\<open>presets.default\<close> when there is none.\<close>

definition preset_defaults :: "host \<Rightarrow> jv" where
  "preset_defaults h = Obj [(''plugins'', plugin_defaults h), (''processors'', processor_defaults)]"

text \<open>A host for the examples.\<close>

definition test_host :: host where
  "test_host = \<lparr>supportedTimeZones = [''Asia/Tokyo'', ''Europe/Paris''],
     resolvedTimeZone = ''Europe/Paris'', METRICS_GITHUB_TOKEN = Str ''ghp_abc123'',
     url = (\<lambda>s. take 8 s = ''https://''), redacted = ''[redacted]''\<rparr>"


section \<open>What a web request may say\<close>

text \<open>
  The part of a payload that is left when the plugin-level entries \<^verbatim>\<open>token\<close>, \<^verbatim>\<open>api\<close>,
  \<^verbatim>\<open>retries\<close> and \<^verbatim>\<open>mock\<close> and the processor-level entries other than \<^verbatim>\<open>id\<close>, \<^verbatim>\<open>fatal\<close> and
  \<^verbatim>\<open>args\<close> are taken away: two payloads differ only in such entries when this part of them
  is the same.
\<close>

definition web_processor :: "jv \<Rightarrow> jv" where
  "web_processor q =
     (case q of
        Obj es \<Rightarrow> Obj (filter (\<lambda>e. fst e \<in> {''id'', ''fatal'', ''args''}) es)
      | _ \<Rightarrow> q)"

definition web_processors :: "jv \<Rightarrow> jv" where
  "web_processors v = (case v of Arr qs \<Rightarrow> Arr (map web_processor qs) | _ \<Rightarrow> v)"

definition web_plugin :: "jv \<Rightarrow> jv" where
  "web_plugin p =
     (case p of
        Obj es \<Rightarrow>
          Obj (map (\<lambda>e. if fst e = ''processors'' then (fst e, web_processors (snd e)) else e)
                 (filter (\<lambda>e. fst e \<notin> {''token'', ''api'', ''retries'', ''mock''}) es))
      | _ \<Rightarrow> p)"

definition web_plugins :: "jv \<Rightarrow> jv" where
  "web_plugins v = (case v of Arr ps \<Rightarrow> Arr (map web_plugin ps) | _ \<Rightarrow> v)"

definition web_visible :: "jv \<Rightarrow> jv" where
  "web_visible v =
     (case v of
        Obj es \<Rightarrow> Obj (map (\<lambda>e. if fst e = ''plugins'' then (fst e, web_plugins (snd e)) else e) es)
      | _ \<Rightarrow> v)"

text \<open>
  The schemas of a processor and of a plugin inside \<^verbatim>\<open>webrequest\<close>, written out.  The mask of
  \<^verbatim>\<open>pick\<close> names \<^verbatim>\<open>preset\<close>, which \<^verbatim>\<open>_plugin\<close> does not have, so it is not picked.
\<close>

definition web_processor_schema :: schema where
  "web_processor_schema = ZodObject [(''id'', ZodString None [min_length 1]),
                (''fatal'', ZodOptional ZodBoolean),
                (''args'', ZodOptional (ZodRecord ZodUnknown))] Strip"

definition web_plugin_schema :: "host \<Rightarrow> schema" where
  "web_plugin_schema h = ZodObject
     [(''id'', ZodOptional (ZodString None [min_length 1])),
      (''timezone'', ZodOptional (ZodRefine (ZodString None [min_length 1])
                       (\<lambda>value. value \<in> Str ` set (timezones h)))),
      (''handle'', ZodOptional (ZodNullable (ZodString (Some (js_String h)) [min_length 1]))),
      (''fatal'', ZodOptional ZodBoolean),
      (''entity'', ZodOptional (ZodEnum entities)),
      (''template'', ZodOptional (ZodUnion
         [ZodLiteralNull,
          ZodString (Some (js_String h)) [url h],
          ZodString (Some (js_String h)) [min_length 1]])),
      (''args'', ZodOptional (ZodRecord ZodUnknown)),
      (''processors'', ZodOptional (ZodArray web_processor_schema))] Strip"

text \<open>A payload whose stripped entries all hold the given value.\<close>

definition web_payload :: "jv \<Rightarrow> jv" where
  "web_payload extra =
     Obj [(''plugins'', Arr [Obj ([(''id'', Str ''followers''), (''token'', extra),
                                   (''retries'', extra), (''api'', extra), (''mock'', extra),
                                   (''processors'', Arr [Obj [(''id'', Str ''render''),
                                                              (''retries'', extra)]])])])]"

text \<open>
  The presets of the examples: a default bundle and a bundle \<^verbatim>\<open>ci\<close> that disagree on
  \<^verbatim>\<open>fatal\<close>, and a bundle \<^verbatim>\<open>ci\<close> that brings two processors.
\<close>

definition fatal_presets :: entries where
  "fatal_presets =
     [(''default'', Obj [(''plugins'', Obj [(''fatal'', Bool False)])]),
      (''ci'', Obj [(''plugins'', Obj [(''fatal'', Bool True)])])]"


text \<open>
  A bundle \<^verbatim>\<open>ci\<close> that sets \<^verbatim>\<open>fatal\<close>, and the document that declares one plugin beside it.
\<close>

definition ci_bundle :: jv where
  "ci_bundle = Obj [(''plugins'', Obj [(''fatal'', Bool True)])]"

definition ci_document :: "entries \<Rightarrow> jv" where
  "ci_document plugin_entry =
     Obj [(''plugins'', Arr [Obj plugin_entry]), (''presets'', Obj [(''ci'', ci_bundle)])]"

text \<open>
  What the cascade leaves of a plugin over the synthesized default bundle on the host of the
  examples: of the empty declaration, and of a declaration that names the bundle \<^verbatim>\<open>ci\<close>
  (its own entries come first).
\<close>

definition nop_resolved :: entries where
  "nop_resolved = [(''args'', Obj []),
                      (''logs'', Str ''trace''),
                      (''api'', Str ''https://api.github.com''),
                      (''token'', Secret (Str ''ghp_abc123'')),
                      (''handle'', Null), (''entity'', Str ''user''),
                      (''template'', Str ''classic''),
                      (''timezone'', Str ''Europe/Paris''),
                      (''mock'', Bool False), (''processors'', Arr []),
                      (''fatal'', Bool False),
                      (''retries'',
                       Obj [(''attempts'', Num 3), (''delay'', Num 120)])]"

definition ci_resolved :: "entries \<Rightarrow> entries" where
  "ci_resolved explicit = explicit @
     [(''args'', Obj []), (''logs'', Str ''trace''), (''api'', Str ''https://api.github.com''),
      (''token'', Secret (Str ''ghp_abc123'')), (''handle'', Null), (''entity'', Str ''user''),
      (''template'', Str ''classic''), (''timezone'', Str ''Europe/Paris''),
      (''mock'', Bool False), (''processors'', Arr []), (''fatal'', Bool True),
      (''retries'', Obj [(''attempts'', Num 3), (''delay'', Num 120)])]"

text \<open>
  The validated document of the examples around its one plugin: the bundle \<^verbatim>\<open>ci\<close> filled in
  by the schema \<^verbatim>\<open>preset\<close>, and the synthesized default bundle.
\<close>

definition ci_validated :: "jv \<Rightarrow> jv" where
  "ci_validated plugin_cfg =
     Obj [(''plugins'', Arr [plugin_cfg]),
          (''presets'', Obj
            [(''ci'', Obj [(''plugins'', Obj [(''args'', Obj []), (''logs'', Str ''trace''),
                 (''api'', Str ''https://api.github.com''),
                 (''token'', Secret (Str ''ghp_abc123'')), (''handle'', Null),
                 (''entity'', Str ''user''), (''template'', Str ''classic''),
                 (''timezone'', Str ''Europe/Paris''), (''mock'', Bool False),
                 (''processors'', Arr []), (''fatal'', Bool True),
                 (''retries'', Obj [(''attempts'', Num 3), (''delay'', Num 120)])]),
                           (''processors'', processor_defaults)]),
             (''default'', preset_defaults test_host)])]"

text \<open>
  A document without presets that declares one plugin, and the validated document around its
  one plugin over the synthesized default bundle.
\<close>

definition plugin_document :: "entries \<Rightarrow> jv" where
  "plugin_document plugin_entry = Obj [(''plugins'', Arr [Obj plugin_entry])]"

definition default_validated :: "jv \<Rightarrow> jv" where
  "default_validated plugin_cfg =
     Obj [(''plugins'', Arr [plugin_cfg]),
          (''presets'', Obj [(''default'', preset_defaults test_host)])]"

section \<open>Properties of objects\<close>

declare parse.simps [simp del]

lemma map_of_put: "map_of (put k v es) j = (if j = k then Some v else map_of es j)"
  by (induction es) auto

lemma key_in: "(k, v) \<in> set es \<Longrightarrow> k \<in> fst ` set es"
  by force

lemma lookup_absent: "k \<notin> fst ` set es \<Longrightarrow> lookup es k = Undef"
  by (simp add: lookup_def map_of_eq_None_iff[THEN iffD2])

lemma map_fst_put:
  "map fst (put k v es) = (if k \<in> set (map fst es) then map fst es else map fst es @ [k])"
  by (induction es) force+

lemma keys_put: "fst ` set (put k v es) = insert k (fst ` set es)"
proof -
  have "set (map fst (put k v es)) = insert k (set (map fst es))"
    unfolding map_fst_put by auto
  then show ?thesis by simp
qed

lemma distinct_put: "distinct (map fst es) \<Longrightarrow> distinct (map fst (put k v es))"
  by (induction es) (auto simp: keys_put)


lemma lookup_put: "lookup (put k v es) j = (if j = k then v else lookup es j)"
  by (simp add: lookup_def map_of_put)

lemma map_of_delete: "map_of (delete k es) j = (if j = k then None else map_of es j)"
  by (induction es) (auto simp: delete_def)

lemma keys_delete: "fst ` set (delete k es) = fst ` set es - {k}"
  by (auto simp: delete_def)

lemma distinct_delete: "distinct (map fst es) \<Longrightarrow> distinct (map fst (delete k es))"
  by (simp add: delete_def distinct_map_filter)

lemma delete_absent: "k \<notin> fst ` set es \<Longrightarrow> delete k es = es"
  by (induction es) (auto simp: delete_def)

lemma assign_snoc: "assign t (xs @ [(k, v)]) = put k v (assign t xs)"
  by (induction xs arbitrary: t) auto

lemma sugar_Obj:
  assumes "''id'' \<notin> fst ` set es"
    and "\<not> (truthy (lookup es ''args'') \<and> typeof_object (lookup es ''args'')
            \<and> object_keys (lookup es ''args'') \<noteq> [])"
  shows "sugar (Obj es) keys =
     (case filter (\<lambda>key. key \<notin> set keys) (map fst es) of
        [] \<Rightarrow> Obj (assign (delete ''undefined'' es)
                  [(''id'', Undef), (''args'', lookup es ''undefined'')])
      | [name] \<Rightarrow> Obj (assign (delete name es) [(''id'', Str name), (''args'', lookup es name)])
      | name # extras \<Rightarrow> Obj (assign [(''id'', Str '''')] es))"
  using assms unfolding sugar_def Let_def own_entries.simps has_key_def object_keys_def
  by auto

lemma sugar_zero: 
  assumes "''id'' \<notin> fst ` set es"
    and "\<not> (truthy (lookup es ''args'') \<and> typeof_object (lookup es ''args'')
            \<and> object_keys (lookup es ''args'') \<noteq> [])"
    and "filter (\<lambda>key. key \<notin> set keys) (map fst es) = []"
    and "''undefined'' \<notin> set keys"
  shows "sugar (Obj es) keys = Obj (assign es [(''id'', Undef), (''args'', Undef)])"
proof -
  from assms(3) have "\<forall>k \<in> set (map fst es). k \<in> set keys"
    by (simp add: filter_empty_conv)
  with assms(4) have "''undefined'' \<notin> fst ` set es"
    by auto
  then have "delete ''undefined'' es = es" "lookup es ''undefined'' = Undef"
    by (simp_all add: delete_absent lookup_absent)
  then show ?thesis using sugar_Obj[OF assms(1,2)] assms(3) by simp
qed



section \<open>The schemas, written out\<close>

lemma internal_eq: "internal = ZodObject
     [(''logs'', ZodEnum [''none'', ''error'', ''warn'', ''info'', ''message'', ''debug'', ''trace''])]
     Strip" by (simp add: internal_def)

lemma component_eq: "component = ZodObject
  [(''logs'', ZodEnum [''none'', ''error'', ''warn'', ''info'', ''message'', ''debug'', ''trace'']),
   (''id'', ZodString None [min_length 1]),
   (''args'', ZodRecord ZodUnknown),
   (''retries'', ZodObject
         [(''attempts'', ZodNumber [int_check, positive]),
          (''delay'', ZodNumber [at_least 0])] Strip),
   (''fatal'', ZodBoolean)] Strip"
  by (simp add: component_def internal_def extend_def)

lemma requests_eq: "requests h = ZodObject
  [(''logs'', ZodEnum [''none'', ''error'', ''warn'', ''info'', ''message'', ''debug'', ''trace'']),
   (''mock'', ZodBoolean),
      (''api'', ZodString None [url h]),
      (''token'', secret),
      (''timezone'', ZodRefine (ZodString None [min_length 1])
                       (\<lambda>value. value \<in> Str ` set (timezones h)))] Strip"
  by (simp add: requests_def internal_def extend_def)

lemma plugin_without_processors'_eq: "plugin_without_processors' h = ZodObject
  [(''logs'', ZodEnum [''none'', ''error'', ''warn'', ''info'', ''message'', ''debug'', ''trace'']),
   (''id'', ZodString None [min_length 1]),
   (''args'', ZodRecord ZodUnknown),
   (''retries'', ZodObject
         [(''attempts'', ZodNumber [int_check, positive]),
          (''delay'', ZodNumber [at_least 0])] Strip),
   (''fatal'', ZodBoolean),
   (''mock'', ZodBoolean),
   (''api'', ZodString None [url h]),
   (''token'', secret),
   (''timezone'', ZodRefine (ZodString None [min_length 1])
                       (\<lambda>value. value \<in> Str ` set (timezones h))),
   (''handle'', ZodNullable (ZodString (Some (js_String h)) [min_length 1])),
   (''entity'', ZodEnum entities),
   (''template'', ZodUnion
         [ZodLiteralNull,
          ZodString (Some (js_String h)) [url h],
          ZodString (Some (js_String h)) [min_length 1]])] Strip"
  by (simp add: plugin_without_processors'_def component_eq requests_eq extend_def merge_schema_def)

lemma processor_without_parent'_eq: "processor_without_parent' h = component"
  by (simp add: processor_without_parent'_def processor'_def component_eq extend_def omit_def)

lemma plugin'_eq: "plugin' h = ZodObject
  [(''logs'', ZodEnum [''none'', ''error'', ''warn'', ''info'', ''message'', ''debug'', ''trace'']),
   (''id'', ZodString None [min_length 1]),
   (''args'', ZodRecord ZodUnknown),
   (''retries'', ZodObject
         [(''attempts'', ZodNumber [int_check, positive]),
          (''delay'', ZodNumber [at_least 0])] Strip),
   (''fatal'', ZodBoolean),
   (''mock'', ZodBoolean),
   (''api'', ZodString None [url h]),
   (''token'', secret),
   (''timezone'', ZodRefine (ZodString None [min_length 1])
                       (\<lambda>value. value \<in> Str ` set (timezones h))),
   (''handle'', ZodNullable (ZodString (Some (js_String h)) [min_length 1])),
   (''entity'', ZodEnum entities),
   (''template'', ZodUnion
         [ZodLiteralNull,
          ZodString (Some (js_String h)) [url h],
          ZodString (Some (js_String h)) [min_length 1]]),
   (''processors'', ZodArray (processor h))] Strip"
  by (simp add: plugin'_def plugin_without_processors'_eq extend_def)

lemma preset_processor'_eq: "preset_processor' h = ZodObject
     [(''args'', ZodDefault (ZodRecord ZodUnknown) (Inr (Obj []))),
      (''logs'', ZodDefault (ZodEnum [''none'', ''error'', ''warn'', ''info'', ''message'', ''debug'', ''trace'']) (Inr (Str ''trace''))),
      (''fatal'', ZodDefault ZodBoolean (Inr (Bool False))),
      (''retries'', ZodDefault (ZodObject
         [(''attempts'', ZodDefault (ZodNumber [int_check, positive]) (Inr (Num 1))),
          (''delay'', ZodDefault (ZodNumber [at_least 0]) (Inr (Num 120)))]
         Strip) (Inr (Obj [])))]
     Strip"
  by (simp add: preset_processor'_def processor'_def component_eq extend_def shape_of_def loglevel_def)

lemma preset_plugin'_eq: "preset_plugin' h = ZodObject
     [(''args'', ZodDefault (ZodRecord ZodUnknown) (Inr (Obj []))),
      (''logs'', ZodDefault (ZodEnum [''none'', ''error'', ''warn'', ''info'', ''message'', ''debug'', ''trace'']) (Inr (Str ''trace''))),
      (''api'', ZodDefault (ZodString None [url h]) (Inr (Str ''https://api.github.com''))),
      (''token'', ZodDefault secret (Inr (METRICS_GITHUB_TOKEN h))),
      (''handle'', ZodDefault (ZodNullable (ZodString (Some (js_String h)) [min_length 1])) (Inr Null)),
      (''entity'', ZodDefault (ZodEnum entities) (Inr (Str ''user''))),
      (''template'', ZodDefault (ZodUnion
         [ZodLiteralNull,
          ZodString (Some (js_String h)) [url h],
          ZodString (Some (js_String h)) [min_length 1]]) (Inr (Str ''classic''))),
      (''timezone'', ZodDefault (ZodRefine (ZodString None [min_length 1])
                       (\<lambda>value. value \<in> Str ` set (timezones h))) (Inr (Str (resolvedTimeZone h)))),
      (''mock'', ZodDefault ZodBoolean (Inr (Bool False))),
      (''processors'',
         ZodDefault (ZodArray (deepPartial component)) (Inr (Arr []))),
      (''fatal'', ZodDefault ZodBoolean (Inr (Bool False))),
      (''retries'', ZodDefault (ZodObject
         [(''attempts'', ZodDefault (ZodNumber [int_check, positive]) (Inr (Num 3))),
          (''delay'', ZodDefault (ZodNumber [at_least 0]) (Inr (Num 120)))]
         Strip) (Inr (Obj [])))]
     Strip"
  by (simp add: preset_plugin'_def plugin'_eq processor_without_parent'_eq shape_of_def loglevel_def)

lemma deepPartial_component: "deepPartial component = ZodObject
  [(''logs'', ZodOptional (ZodEnum [''none'', ''error'', ''warn'', ''info'', ''message'', ''debug'', ''trace''])),
   (''id'', ZodOptional (ZodString None [min_length 1])),
   (''args'', ZodOptional (ZodRecord ZodUnknown)),
   (''retries'', ZodOptional (ZodObject
         [(''attempts'', ZodOptional (ZodNumber [int_check, positive])),
          (''delay'', ZodOptional (ZodNumber [at_least 0]))] Strip)),
   (''fatal'', ZodOptional ZodBoolean)] Strip"
  by (simp add: component_eq)

lemma is_Secret_secret_transform: "is_Secret (secret_transform v)"
  by (cases v) (simp_all add: secret_transform_def)

lemma secret_transform_defined: "secret_transform v \<noteq> Undef"
  using is_Secret_secret_transform[of v] by auto

lemma parse_preset_plugin'_empty:
  "parse (preset_plugin' h) (Obj []) =
    (if url h ''https://api.github.com'' \<and> resolvedTimeZone h \<noteq> []
        \<and> resolvedTimeZone h \<in> set (supportedTimeZones h)
     then Inr (plugin_defaults h) else Inl Issues)"
  by (simp add: parse.simps preset_plugin'_eq lookup_def object_output_def secret_def min_length_def
      timezones_def plugin_defaults_def int_check_def positive_def at_least_def entities_def image_iff Suc_le_eq
      secret_transform_defined)

lemma loads_iff:
  "loads h \<longleftrightarrow> url h ''https://api.github.com'' \<and> resolvedTimeZone h \<noteq> []
        \<and> resolvedTimeZone h \<in> set (supportedTimeZones h)"
  by (simp add: loads_def parse_preset_plugin'_empty)

lemma parse_preset_plugin'_loads:
  "loads h \<Longrightarrow> parse (preset_plugin' h) (Obj []) = Inr (plugin_defaults h)"
  by (simp add: loads_iff parse_preset_plugin'_empty)

lemma plugin_keys'_eq:
  "loads h \<Longrightarrow> plugin_keys' h =
     [''args'', ''logs'', ''api'', ''token'', ''handle'', ''entity'', ''template'', ''timezone'',
      ''mock'', ''processors'', ''fatal'', ''retries'']"
  by (simp add: plugin_keys'_def parse_preset_plugin'_loads plugin_defaults_def object_keys_def)

lemma parse_preset_processor'_empty:
  "parse (preset_processor' h) (Obj []) = Inr processor_defaults"
  by (simp add: parse.simps preset_processor'_eq lookup_def object_output_def processor_defaults_def
       int_check_def positive_def at_least_def)

lemma processor_keys'_eq: "processor_keys' h = [''args'', ''logs'', ''fatal'', ''retries'']"
  by (simp add: processor_keys'_def parse_preset_processor'_empty processor_defaults_def object_keys_def)

section \<open>Properties of parsing\<close>

lemma collect_map_Inr: "collect (map Inr xs) = Inr xs"
  by (induction xs) auto

lemma collect_Inr_D: "collect rs = Inr xs \<Longrightarrow> rs = map Inr xs"
proof (induction rs arbitrary: xs rule: collect.induct)
  case 1 then show ?case by auto
next
  case (2 rs) then show ?case by auto
next
  case (3 rs) then show ?case by (auto split: sum.splits error.splits)
next
  case (4 x rs)
  then obtain ys where "collect rs = Inr ys" "xs = x # ys"
    by (auto split: sum.splits)
  with 4 show ?case by auto
qed

lemma collect_Inr_iff: "collect rs = Inr xs \<longleftrightarrow> rs = map Inr xs"
  using collect_map_Inr collect_Inr_D by blast

lemma collect_fails: "Inl e \<in> set rs \<Longrightarrow> isl (collect rs)"
proof (induction rs rule: collect.induct)
  case 1 then show ?case by simp
next
  case (2 rs) then show ?case by simp
next
  case (3 rs) then show ?case by (auto split: sum.splits error.splits)
next
  case (4 x rs) then show ?case by (auto split: sum.splits)
qed

lemma collect_length: "collect rs = Inr xs \<Longrightarrow> length xs = length rs"
  by (simp add: collect_Inr_iff)

lemma isl_case_sum_Inl: "isl r \<Longrightarrow> isl (case r of Inl e \<Rightarrow> Inl e | Inr x \<Rightarrow> f x)"
  by (cases r) auto

lemma parse_object_field_fails:
  assumes "(k, s) \<in> set shape" and "object_entries v = Some es"
    and "isl (parse s (lookup es k))"
  shows "isl (parse (ZodObject shape u) v)"
proof -
  obtain e where "parse s (lookup es k) = Inl e" using assms(3) by (cases "parse s (lookup es k)") auto
  then have "Inl e \<in> set (map (\<lambda>(k, s). parse s (lookup es k)) shape)"
    using assms(1) by force
  then have "isl (collect (map (\<lambda>(k, s). parse s (lookup es k)) shape))"
    by (rule collect_fails)
  then show ?thesis using assms(2) by (auto simp: parse.simps split: sum.splits)
qed

lemma parse_strict_extra_key:
  assumes "object_entries v = Some es" and "k \<in> fst ` set es" and "k \<notin> fst ` set shape"
  shows "isl (parse (ZodObject shape Strict) v)"
proof -
  have "filter (\<lambda>(k, v). k \<notin> set (map fst shape)) es \<noteq> []"
    using assms(2,3) by (force simp: filter_empty_conv)
  then show ?thesis using assms(1)
    by (auto simp: parse.simps object_output_def Let_def split: sum.splits)
qed

lemma parse_array_element_fails:
  assumes "x \<in> set xs" and "isl (parse s x)"
  shows "isl (parse (ZodArray s) (Arr xs))"
proof -
  obtain e where "parse s x = Inl e" using assms(2) by (cases "parse s x") auto
  then have "Inl e \<in> set (map (parse s) xs)" using assms(1) by force
  then have "isl (collect (map (parse s) xs))" by (rule collect_fails)
  then show ?thesis by (auto simp: parse.simps split: sum.splits)
qed

lemma first_valid_fails: "\<forall>p \<in> set ps. isl (p v) \<Longrightarrow> isl (first_valid ps v)"
  by (induction ps) (auto split: sum.splits error.splits)

lemma parse_union_fails: "\<forall>s \<in> set options. isl (parse s v) \<Longrightarrow> isl (parse (ZodUnion options) v)"
  by (simp add: parse.simps first_valid_fails)

lemma object_output_keys:
  assumes "object_output ks u es vs = Inr out"
  shows "\<exists>r. out = Obj r \<and> fst ` set r \<subseteq> set ks \<union> (if u = Passthrough then fst ` set es else {})"
  using assms
  by (cases u) (auto simp: object_output_def Let_def split: if_splits dest!: set_zip_leftD)

lemma parse_object_keys:
  assumes "parse (ZodObject shape u) v = Inr out" and "u \<noteq> Passthrough"
  shows "\<exists>r. out = Obj r \<and> fst ` set r \<subseteq> fst ` set shape"
  using assms object_output_keys[of "map fst shape" u _ _ out]
  by (auto simp: parse.simps split: option.splits sum.splits)

lemma map_of_filter_key:
  "(\<And>v. P (k, v)) \<Longrightarrow> map_of (filter P es) k = map_of es k"
  by (induction es) auto

lemma map_of_filter_not_key:
  "(\<And>v. \<not> P (k, v)) \<Longrightarrow> map_of (filter P es) k = None"
  by (induction es) auto

lemma parse_passthrough_extra:
  assumes "parse (ZodObject shape Passthrough) v = Inr out" and "object_entries v = Some es"
    and "k \<notin> fst ` set shape"
  shows "get out k = lookup es k"
proof -
  obtain vs where vs: "collect (map (\<lambda>(k, s). parse s (lookup es k)) shape) = Inr vs"
    and out: "object_output (map fst shape) Passthrough es vs = Inr out"
    using assms(1,2) by (auto simp: parse.simps split: sum.splits)
  let ?pairs = "filter (\<lambda>(k, v). v \<noteq> Undef \<or> k \<in> fst ` set es) (zip (map fst shape) vs)"
  let ?extra = "filter (\<lambda>(k, v). k \<notin> set (map fst shape)) es"
  have o: "out = Obj (?pairs @ ?extra)" using out by (simp add: object_output_def)
  have "k \<notin> fst ` set ?pairs" using assms(3) by (auto dest!: set_zip_leftD)
  then have "map_of ?pairs k = None" by (simp add: map_of_eq_None_iff)
  moreover have "map_of ?extra k = map_of es k"
    using assms(3) by (intro map_of_filter_key) auto
  ultimately show ?thesis by (simp add: o get_def lookup_def map_add_def)
qed

lemma loads_test_host: "loads test_host"
  by (simp add: loads_iff test_host_def)

lemma plugin_rejects_without_id:
  assumes "''id'' \<notin> fst ` set es"
    and "isl (parse (strict (extend (preset_plugin' h)
                      [(''id'', shape_of (plugin' h) ''id''),
                       (''preset'', ZodOptional (ZodString None []))]))
               (sugar (Obj es) (plugin_keys' h)))"
  shows "isl (parse (plugin h) (Obj es))"
proof -
  have "isl (parse (ZodString None [min_length 1]) (lookup es ''id''))"
    using assms(1) by (simp add: parse.simps lookup_absent)
  then have "isl (parse (plugin' h) (Obj es))"
    unfolding plugin'_eq by (intro parse_object_field_fails[where k="''id''" and es=es]) auto
  then show ?thesis using assms(2)
    by (auto simp: plugin_def parse.simps(17) split: sum.splits error.splits)
qed

lemma strict_declaration_rejects_id:
  assumes "object_entries v = Some r" and "lookup r ''id'' = Undef \<or> lookup r ''id'' = Str ''''"
  shows "isl (parse (strict (extend (preset_plugin' h)
                      [(''id'', shape_of (plugin' h) ''id''),
                       (''preset'', ZodOptional (ZodString None []))])) v)"
proof -
  have "isl (parse (ZodString None [min_length 1]) (lookup r ''id''))"
    using assms(2) by (auto simp: parse.simps min_length_def)
  then show ?thesis using assms(1)
    unfolding strict_def 
    by (intro parse_object_field_fails[where k="''id''" and es=r])
       (auto simp: preset_plugin'_eq extend_def plugin'_eq shape_of_def)
qed

lemma processor_rejects_id:
  assumes "object_entries (sugar v (processor_keys' h)) = Some r"
    and "lookup r ''id'' = Undef \<or> lookup r ''id'' = Str ''''"
  shows "isl (parse (processor h) v)"
proof (cases "parse (passthrough (preset_processor' h)) (sugar v (processor_keys' h))")
  case (Inl e)
  then show ?thesis by (simp add: processor_def throwing_def parse.simps(17))
next
  case (Inr x)
  then have "get x ''id'' = lookup r ''id''"
    unfolding passthrough_def preset_processor'_eq
    by (simp only: entries_of.simps) (rule parse_passthrough_extra[OF _ assms(1)], auto)
  moreover obtain xs where "x = Obj xs"
    using Inr unfolding passthrough_def preset_processor'_eq
    by (auto simp: parse.simps(8) object_output_def split: option.splits sum.splits)
  ultimately have "isl (parse (ZodString None [min_length 1]) (lookup xs ''id''))"
    using assms(2) by (auto simp: parse.simps get_def min_length_def)
  then have "isl (parse (strict (processor_without_parent' h)) x)"
    unfolding strict_def processor_without_parent'_eq component_eq \<open>x = Obj xs\<close>
    by (simp only: entries_of.simps) (rule parse_object_field_fails[where k="''id''" and es=xs], auto)
  then show ?thesis using Inr by (simp add: processor_def throwing_def parse.simps(17))
qed

lemma plugin_nop'_eq: "plugin_nop' h = ZodTransform (ZodObject
  [(''logs'', ZodEnum [''none'', ''error'', ''warn'', ''info'', ''message'', ''debug'', ''trace'']),
   (''fatal'', ZodBoolean),
   (''mock'', ZodBoolean),
   (''api'', ZodString None [url h]),
   (''token'', secret),
   (''timezone'', ZodRefine (ZodString None [min_length 1])
                       (\<lambda>value. value \<in> Str ` set (timezones h))),
   (''handle'', ZodNullable (ZodString (Some (js_String h)) [min_length 1])),
   (''entity'', ZodEnum entities),
   (''processors'', ZodArray (processor h))] Strict)
     (\<lambda>value. Obj (assign (own_entries value) [(''template'', Null)]))"
  by (simp add: plugin_nop'_def plugin'_eq omit_def strict_def plugin_nop_removed_keys'_def)

lemma nop_declaration_keys:
  "map fst (entries_of (strict (extend (preset_plugin' h) [(''preset'', s)]))) =
     [''args'', ''logs'', ''api'', ''token'', ''handle'', ''entity'', ''template'',
      ''timezone'', ''mock'', ''processors'', ''fatal'', ''retries'', ''preset'']"
  by (simp add: strict_def extend_def preset_plugin'_eq)

lemma strict_is_object: "strict s = ZodObject (entries_of (strict s)) Strict"
  by (simp add: strict_def)

lemma parse_transform_fails: "isl (parse s v) \<Longrightarrow> isl (parse (ZodTransform s f) v)"
  by (auto simp: parse.simps(15) split: sum.splits)


lemma config'_rejects_plugin:
  assumes "get v ''plugins'' = Arr ps" and "p \<in> set ps"
    and "isl (parse (plugin h) p)" and "isl (parse (plugin_nop h) p)"
  shows "isl (parse (config' h) v)"
proof (cases "object_entries v")
  case None
  then show ?thesis by (simp add: config'_def parse.simps(8))
next
  case (Some es)
  have "own_entries v = es" using Some by (cases v) auto
  then have l: "lookup es ''plugins'' = Arr ps" using assms(1) by (simp add: get_def)
  have "isl (parse (ZodUnion [plugin h, plugin_nop h]) p)"
    using assms(3,4) by (intro parse_union_fails) auto
  then have "isl (parse (ZodArray (ZodUnion [plugin h, plugin_nop h])) (lookup es ''plugins''))"
    unfolding l using assms(2) by (rule parse_array_element_fails[rotated])
  then show ?thesis unfolding config'_def using Some
    by (intro parse_object_field_fails[where k="''plugins''" and es=es]) auto
qed


section \<open>Properties of the merge\<close>

lemma map_of_mergeOwn:
  "map_of (mergeOwn r other) k =
     map_option (\<lambda>a. case map_of other k of None \<Rightarrow> a | Some b \<Rightarrow> mergeObjects a b) (map_of r k)"
  by (induction r) (auto split: option.splits)

lemma keys_mergeOwn: "map fst (mergeOwn r other) = map fst r"
  by (induction r) auto

lemma mergeOwn_Nil: "mergeOwn r [] = r"
  by (induction r) auto

lemma map_of_deepMerge:
  "map_of (deepMerge r other) k =
     (case map_of r k of
        None \<Rightarrow> map_of (own_entries other) k
      | Some a \<Rightarrow> Some (case map_of (own_entries other) k of None \<Rightarrow> a | Some b \<Rightarrow> mergeObjects a b))"
proof (cases "map_of r k")
  case None
  then have "k \<notin> fst ` set r" by (simp add: map_of_eq_None_iff)
  then have "map_of (filter (\<lambda>e. fst e \<notin> fst ` set r) (own_entries other)) k
     = map_of (own_entries other) k"
    by (intro map_of_filter_key) simp
  then show ?thesis using None by (simp add: deepMerge_def map_add_def map_of_mergeOwn)
next
  case (Some a)
  then show ?thesis by (simp add: deepMerge_def map_add_def map_of_mergeOwn)
qed

lemma keys_deepMerge:
  "map fst (deepMerge r other) =
     map fst r @ filter (\<lambda>k. k \<notin> set (map fst r)) (object_keys other)"
  by (simp add: deepMerge_def keys_mergeOwn object_keys_def filter_map comp_def)

lemma distinct_deepMerge:
  "distinct (map fst r) \<Longrightarrow> distinct (object_keys other) \<Longrightarrow> distinct (map fst (deepMerge r other))"
  by (auto simp: keys_deepMerge)

lemma deepMerge_empty: "own_entries other = [] \<Longrightarrow> deepMerge r other = r"
  by (simp add: deepMerge_def mergeOwn_Nil)

lemma deepMerge_Nil: "deepMerge [] other = own_entries other"
  by (simp add: deepMerge_def)

lemma own_entries_nullish: "nullish v \<Longrightarrow> own_entries v = []"
  by (auto simp: nullish_def)

lemma layer_entries: "own_entries (if nullish v then Obj [] else v) = own_entries v"
  by (simp add: own_entries_nullish)

lemma deepMerge_cong: "own_entries a = own_entries b \<Longrightarrow> deepMerge r a = deepMerge r b"
  by (simp add: deepMerge_def)

lemma deepMerge_layer: "deepMerge r (if nullish v then Obj [] else v) = deepMerge r v"
  by (rule deepMerge_cong) (rule layer_entries)

lemma merge_Cons: "merge (a # layers) = foldl deepMerge (own_entries a) layers"
proof -
  have "foldl (\<lambda>result object. deepMerge result (if nullish object then Obj [] else object)) r ls
     = foldl deepMerge r ls" for r ls
    by (induction ls arbitrary: r) (simp_all add: deepMerge_layer)
  then show ?thesis by (simp add: merge_def deepMerge_layer deepMerge_Nil)
qed

lemma merge2: "merge [a, b] = deepMerge (own_entries a) b"
  by (simp add: merge_Cons)

lemma merge3: "merge [a, b, c] = deepMerge (deepMerge (own_entries a) b) c"
  by (simp add: merge_Cons)

lemma merge4: "merge [a, b, c, d] = deepMerge (deepMerge (deepMerge (own_entries a) b) c) d"
  by (simp add: merge_Cons)

lemma merge_skip_nullish:
  "nullish b \<Longrightarrow> merge (as @ b # cs) = merge (as @ cs)"
proof -
  assume "nullish b"
  then have e: "deepMerge r (if nullish b then Obj [] else b) = r" for r
    by (simp add: deepMerge_empty)
  show ?thesis by (simp add: merge_def e)
qed

lemma distinct_merge3:
  assumes "distinct (object_keys a)" "distinct (object_keys b)" "distinct (object_keys c)"
  shows "distinct (map fst (merge [a, b, c]))"
  unfolding merge3 using assms
  by (intro distinct_deepMerge) (simp_all add: object_keys_def)

lemma keys_merge3_last: "set (object_keys c) \<subseteq> fst ` set (merge [a, b, c])"
proof -
  have "set (object_keys c) \<subseteq> set (map fst (merge [a, b, c]))"
    unfolding merge3 keys_deepMerge[of _ c] by auto
  then show ?thesis by simp
qed

lemma map_of_assign:
  "map_of (assign t s) k = (case map_of (rev s) k of None \<Rightarrow> map_of t k | Some v \<Rightarrow> Some v)"
proof (induction s arbitrary: t)
  case Nil
  then show ?case by simp
next
  case (Cons e s)
  obtain a b where e: "e = (a, b)" by (cases e)
  show ?case unfolding e by (simp add: Cons.IH map_of_put map_add_def split: option.splits)
qed

lemma map_of_rev_distinct: "distinct (map fst xs) \<Longrightarrow> map_of (rev xs) k = map_of xs k"
proof (induction xs)
  case Nil
  then show ?case by simp
next
  case (Cons e xs)
  then have "fst e \<notin> fst ` set xs" by simp
  then have n: "map_of xs (fst e) = None" by (simp add: map_of_eq_None_iff)
  show ?case using Cons n by (cases e) (auto simp: map_add_def split: option.splits)
qed

lemma map_of_assign_cover:
  assumes "distinct (map fst s)" and "fst ` set t \<subseteq> fst ` set s"
  shows "map_of (assign t s) k = map_of s k"
proof (cases "map_of s k")
  case None
  then have "k \<notin> fst ` set s" by (simp add: map_of_eq_None_iff)
  with assms(2) have "k \<notin> fst ` set t" by auto
  then have "map_of t k = None" by (simp add: map_of_eq_None_iff)
  with None show ?thesis by (simp add: map_of_assign map_of_rev_distinct[OF assms(1)])
next
  case (Some v)
  then show ?thesis by (simp add: map_of_assign map_of_rev_distinct[OF assms(1)])
qed

section \<open>The claims\<close>

text \<open>
  \<^bold>\<open>C4.\<close> An object without \<^verbatim>\<open>id\<close> and without a non-empty \<^verbatim>\<open>args\<close> object that has exactly
  one key outside the recognized keys is rewritten by \<^verbatim>\<open>sugar\<close>: that key is removed (unless
  it is \<^verbatim>\<open>args\<close> itself, which is then overwritten), \<^verbatim>\<open>id\<close> is the name of the key, \<^verbatim>\<open>args\<close> is
  its value, and every other entry is as it was.
\<close>

theorem sugar_single_key:
  assumes "''id'' \<notin> fst ` set es"
    and "\<not> (truthy (lookup es ''args'') \<and> typeof_object (lookup es ''args'')
            \<and> object_keys (lookup es ''args'') \<noteq> [])"
    and "filter (\<lambda>key. key \<notin> set keys) (map fst es) = [name]"
  shows "\<exists>r. sugar (Obj es) keys = Obj r
           \<and> map_of r ''id'' = Some (Str name)
           \<and> map_of r ''args'' = Some (lookup es name)
           \<and> (name \<noteq> ''args'' \<longrightarrow> name \<notin> fst ` set r)
           \<and> (\<forall>k. k \<notin> {name, ''id'', ''args''} \<longrightarrow> map_of r k = map_of es k)
           \<and> fst ` set r = fst ` set es - {name} \<union> {''id'', ''args''}"
proof -
  let ?r = "assign (delete name es) [(''id'', Str name), (''args'', lookup es name)]"
  have "name \<in> set (filter (\<lambda>key. key \<notin> set keys) (map fst es))"
    by (simp add: assms(3))
  then have "name \<in> set (map fst es)" by simp
  with assms(1) have "name \<noteq> ''id''" by force
  have "sugar (Obj es) keys = Obj ?r"
    using sugar_Obj[OF assms(1,2)] assms(3) by simp
  moreover have "map_of ?r ''id'' = Some (Str name)" "map_of ?r ''args'' = Some (lookup es name)"
    by (simp_all add: map_of_put)
  moreover have "name \<noteq> ''args'' \<longrightarrow> name \<notin> fst ` set ?r"
    using \<open>name \<noteq> ''id''\<close> by (auto simp: keys_put keys_delete)
  moreover have "\<forall>k. k \<notin> {name, ''id'', ''args''} \<longrightarrow> map_of ?r k = map_of es k"
    by (simp add: map_of_put map_of_delete)
  moreover have "fst ` set ?r = fst ` set es - {name} \<union> {''id'', ''args''}"
    by (auto simp: keys_put keys_delete)
  ultimately show ?thesis by blast
qed

lemma sugar_readme:
  "sugar (Obj [(''readme'', Obj [(''sections'', Arr [Str ''intro''])])]) (plugin_keys' test_host)
     = Obj [(''id'', Str ''readme''), (''args'', Obj [(''sections'', Arr [Str ''intro''])])]"
  by (simp add: sugar_def has_key_def object_keys_def lookup_def delete_def
        plugin_keys'_eq[OF loads_test_host])


text \<open>The declaration \<^verbatim>\<open>{ readme: { sections: ["intro"] } }\<close> of a plugin.\<close>

theorem sugar_single_key_witness:
  "''id'' \<notin> fst ` set [(''readme'', Obj [(''sections'', Arr [Str ''intro''])])]
   \<and> filter (\<lambda>key. key \<notin> set (plugin_keys' test_host))
        (map fst [(''readme'', Obj [(''sections'', Arr [Str ''intro''])])]) = [''readme'']
   \<and> (\<exists>r. sugar (Obj [(''readme'', Obj [(''sections'', Arr [Str ''intro''])])])
               (plugin_keys' test_host) = Obj r
          \<and> map_of r ''id'' = Some (Str ''readme'')
          \<and> map_of r ''args'' = Some (Obj [(''sections'', Arr [Str ''intro''])])
          \<and> fst ` set r = {''id'', ''args''})"
proof -
  let ?es = "[(''readme'', Obj [(''sections'', Arr [Str ''intro''])])]"
  have 1: "''id'' \<notin> fst ` set ?es" by simp
  have 2: "\<not> (truthy (lookup ?es ''args'') \<and> typeof_object (lookup ?es ''args'')
            \<and> object_keys (lookup ?es ''args'') \<noteq> [])" by (simp add: lookup_def)
  have 3: "filter (\<lambda>key. key \<notin> set (plugin_keys' test_host)) (map fst ?es) = [''readme'']"
    by (simp add: plugin_keys'_eq[OF loads_test_host])
  have 4: "lookup ?es ''readme'' = Obj [(''sections'', Arr [Str ''intro''])]"
    by (simp add: lookup_def)
  have 5: "fst ` set ?es - {''readme''} \<union> {''id'', ''args''} = {''id'', ''args''}"
    by simp
  from sugar_single_key[OF 1 2 3] obtain r where
    "sugar (Obj ?es) (plugin_keys' test_host) = Obj r"
    "map_of r ''id'' = Some (Str ''readme'')"
    "map_of r ''args'' = Some (lookup ?es ''readme'')"
    "fst ` set r = fst ` set ?es - {''readme''} \<union> {''id'', ''args''}"
    by (elim exE conjE)
  then have "\<exists>r. sugar (Obj ?es) (plugin_keys' test_host) = Obj r
          \<and> map_of r ''id'' = Some (Str ''readme'')
          \<and> map_of r ''args'' = Some (Obj [(''sections'', Arr [Str ''intro''])])
          \<and> fst ` set r = {''id'', ''args''}"
    unfolding 4 5 by (intro exI[of _ r] conjI)
  with 1 3 show ?thesis by (intro conjI)
qed


text \<open>
  \<^bold>\<open>C8.\<close> The schema \<^verbatim>\<open>secret\<close> accepts every value and returns a \<^verbatim>\<open>Secret\<close>; a value that is a
  \<^verbatim>\<open>Secret\<close> already is returned as it is, so parsing the result again changes nothing.
\<close>

theorem secret_wrap_idempotent:
  "(\<exists>s. parse secret v = Inr s \<and> is_Secret s)
   \<and> (is_Secret v \<longrightarrow> parse secret v = Inr v)
   \<and> (\<forall>s. parse secret v = Inr s \<longrightarrow> parse secret s = Inr s)"
  by (cases v) (auto simp: parse.simps secret_def secret_transform_def)

theorem secret_wrap_idempotent_witness:
  "is_Secret (Secret (Str ''ghp_abc123''))
   \<and> parse secret (Secret (Str ''ghp_abc123'')) = Inr (Secret (Str ''ghp_abc123''))
   \<and> parse secret (Str ''ghp_abc123'') = Inr (Secret (Str ''ghp_abc123''))"
  using secret_wrap_idempotent[of "Secret (Str ''ghp_abc123'')"]
  by (simp add: parse.simps secret_def secret_transform_def)

text \<open>
  \<^bold>\<open>C10.\<close> An object without \<^verbatim>\<open>id\<close>, without a non-empty \<^verbatim>\<open>args\<close> object and without any key
  outside the recognized keys (none of which is \<^verbatim>\<open>"undefined"\<close>) does not come back from
  \<^verbatim>\<open>sugar\<close> unchanged: \<^verbatim>\<open>id\<close> and \<^verbatim>\<open>args\<close> are set to \<^verbatim>\<open>undefined\<close>, no key is removed, every
  entry but \<^verbatim>\<open>args\<close> keeps its value, and the schemas \<^verbatim>\<open>plugin\<close> and \<^verbatim>\<open>processor\<close> reject the
  declaration for its \<^verbatim>\<open>id\<close>.
\<close>

theorem sugar_no_unknown_key:
  assumes "''id'' \<notin> fst ` set es"
    and "\<not> (truthy (lookup es ''args'') \<and> typeof_object (lookup es ''args'')
            \<and> object_keys (lookup es ''args'') \<noteq> [])"
    and "filter (\<lambda>key. key \<notin> set keys) (map fst es) = []"
    and "''undefined'' \<notin> set keys"
  shows "sugar (Obj es) keys = Obj (assign es [(''id'', Undef), (''args'', Undef)])
    \<and> sugar (Obj es) keys \<noteq> Obj es
    \<and> has_key (sugar (Obj es) keys) ''id'' \<and> get (sugar (Obj es) keys) ''id'' = Undef
    \<and> has_key (sugar (Obj es) keys) ''args'' \<and> get (sugar (Obj es) keys) ''args'' = Undef
    \<and> (\<forall>k. has_key (Obj es) k \<longrightarrow> has_key (sugar (Obj es) keys) k)
    \<and> (\<forall>k. k \<noteq> ''args'' \<longrightarrow> get (sugar (Obj es) keys) k = get (Obj es) k)
    \<and> (keys = plugin_keys' h \<longrightarrow> isl (parse (plugin h) (Obj es)))
    \<and> (keys = processor_keys' h \<longrightarrow> isl (parse (processor h) (Obj es)))"
proof -
  let ?r = "put ''args'' Undef (put ''id'' Undef es)"
  let ?s = "sugar (Obj es) keys"
  have s: "?s = Obj ?r"
    using sugar_zero[OF assms] by simp
  have c1: "?s = Obj (assign es [(''id'', Undef), (''args'', Undef)])"
    using sugar_zero[OF assms] .
  have c3: "has_key ?s ''id''" and c5: "has_key ?s ''args''"
    and c7: "\<forall>k. has_key (Obj es) k \<longrightarrow> has_key ?s k"
    unfolding s by (simp_all add: has_key_def object_keys_def keys_put)
  have c4: "get ?s ''id'' = Undef" and c6: "get ?s ''args'' = Undef"
    unfolding s by (simp_all add: get_def lookup_put)
  have c8: "\<forall>k. k \<noteq> ''args'' \<longrightarrow> get ?s k = get (Obj es) k"
    unfolding s using assms(1) by (simp add: get_def lookup_put lookup_absent)
  have "\<not> has_key (Obj es) ''id''"
    using assms(1) by (simp add: has_key_def object_keys_def)
  with c3 have c2: "?s \<noteq> Obj es" by metis
  have c10: "keys = processor_keys' h \<longrightarrow> isl (parse (processor h) (Obj es))"
  proof
    assume k: "keys = processor_keys' h"
    show "isl (parse (processor h) (Obj es))"
      by (rule processor_rejects_id[where r="?r"])
         (simp_all add: s[unfolded k] lookup_put)
  qed
  have c9: "keys = plugin_keys' h \<longrightarrow> isl (parse (plugin h) (Obj es))"
  proof
    assume k: "keys = plugin_keys' h"
    show "isl (parse (plugin h) (Obj es))"
      using assms(1)
      by (rule plugin_rejects_without_id)
         (rule strict_declaration_rejects_id[where r="?r"],
          simp_all add: s[unfolded k] lookup_put)
  qed
  show ?thesis
    by (intro conjI) (fact c1 c2 c3 c4 c5 c6 c7 c8 c9 c10)+
qed

theorem sugar_no_unknown_key_witness:
  "''id'' \<notin> fst ` set [(''fatal'', Bool True)]
   \<and> filter (\<lambda>key. key \<notin> set (processor_keys' test_host)) (map fst [(''fatal'', Bool True)]) = []
   \<and> ''undefined'' \<notin> set (processor_keys' test_host)
   \<and> sugar (Obj [(''fatal'', Bool True)]) (processor_keys' test_host)
       = Obj [(''fatal'', Bool True), (''id'', Undef), (''args'', Undef)]
   \<and> isl (parse (processor test_host) (Obj [(''fatal'', Bool True)]))"
proof -
  let ?es = "[(''fatal'', Bool True)]"
  have 1: "''id'' \<notin> fst ` set ?es" by simp
  have 2: "\<not> (truthy (lookup ?es ''args'') \<and> typeof_object (lookup ?es ''args'')
            \<and> object_keys (lookup ?es ''args'') \<noteq> [])" by (simp add: lookup_def)
  have 3: "filter (\<lambda>key. key \<notin> set (processor_keys' test_host)) (map fst ?es) = []"
    by (simp add: processor_keys'_eq)
  have 4: "''undefined'' \<notin> set (processor_keys' test_host)"
    by (simp add: processor_keys'_eq)
  have 5: "assign ?es [(''id'', Undef), (''args'', Undef)]
     = [(''fatal'', Bool True), (''id'', Undef), (''args'', Undef)]" by simp
  note w = sugar_no_unknown_key[OF 1 2 3 4, of test_host, unfolded 5]
  have 6: "sugar (Obj ?es) (processor_keys' test_host)
       = Obj [(''fatal'', Bool True), (''id'', Undef), (''args'', Undef)]"
    using w by (elim conjE)
  have 7: "isl (parse (processor test_host) (Obj ?es))"
    using w by (elim conjE) (erule mp, rule refl)
  show ?thesis by (intro conjI) (fact 1 3 4 6 7)+
qed

lemma resolve_plugin_other_fields:
  assumes "resolve_plugin h presets declaration = Inr (presets', resolved, shared)"
    and "k \<noteq> ''processors''"
  shows "map_of resolved k =
     map_of (assign (own_entries declaration)
       (merge [get (lookup presets ''default'') ''plugins'',
               optional_get (bundle_of h presets (get declaration ''preset'')) ''plugins'',
               declaration])) k"
  using assms
  by (auto simp: resolve_plugin_def Let_def map_of_put split: jv.splits sum.splits if_splits)

lemma resolve_plugin_merged_fields:
  assumes "resolve_plugin h presets declaration = Inr (presets', resolved, shared)"
    and "distinct (object_keys (get (lookup presets ''default'') ''plugins''))"
    and "distinct (object_keys (optional_get (bundle_of h presets (get declaration ''preset'')) ''plugins''))"
    and "distinct (object_keys declaration)"
    and "k \<noteq> ''processors''"
  shows "map_of resolved k =
     map_of (merge [get (lookup presets ''default'') ''plugins'',
               optional_get (bundle_of h presets (get declaration ''preset'')) ''plugins'',
               declaration]) k"
  unfolding resolve_plugin_other_fields[OF assms(1,5)]
  using keys_merge3_last[of "declaration"]
  by (intro map_of_assign_cover distinct_merge3 assms(2,3,4)) (simp add: object_keys_def)

text \<open>
  \<^bold>\<open>C1.\<close> A field of a resolved plugin other than \<^verbatim>\<open>processors\<close> is the field of the merge of
  three layers: the plugins of the default bundle, the plugins of the bundle that the
  plugin names, the declaration.  A value of the declaration that is not an object wins;
  without one, a value of the named bundle that is not an object wins; without either,
  the value of the default bundle stands.
\<close>

theorem cascade_precedence:
  assumes "resolve_plugin h presets (Obj explicit) = Inr (presets', resolved, shared)"
    and "lookup presets ''default'' = default_bundle"
    and "bundle_of h presets (get (Obj explicit) ''preset'') = named_bundle"
    and "distinct (object_keys (get default_bundle ''plugins''))"
    and "distinct (object_keys (optional_get named_bundle ''plugins''))"
    and "distinct (map fst explicit)"
    and "k \<noteq> ''processors''"
  shows "map_of resolved k =
           map_of (merge [get default_bundle ''plugins'', optional_get named_bundle ''plugins'', Obj explicit]) k
     \<and> (\<forall>v. map_of explicit k = Some v \<and> (\<forall>es. v \<noteq> Obj es) \<longrightarrow> map_of resolved k = Some v)
     \<and> (\<forall>v. map_of explicit k = None
            \<and> map_of (own_entries (optional_get named_bundle ''plugins'')) k = Some v
            \<and> (\<forall>es. v \<noteq> Obj es) \<longrightarrow> map_of resolved k = Some v)
     \<and> (map_of explicit k = None
            \<and> map_of (own_entries (optional_get named_bundle ''plugins'')) k = None
          \<longrightarrow> map_of resolved k = map_of (own_entries (get default_bundle ''plugins'')) k)"
proof -
  have not_obj: "mergeObjects a v = v" if "\<forall>es. v \<noteq> Obj es" for a v
    using that by (cases a; cases v) auto
  have m: "map_of resolved k =
           map_of (merge [get default_bundle ''plugins'', optional_get named_bundle ''plugins'', Obj explicit]) k"
    using resolve_plugin_merged_fields[OF assms(1) _ _ _ assms(7)] assms(2-6)
    by (simp add: object_keys_def)
  show ?thesis unfolding m
    by (auto simp: merge3 map_of_deepMerge not_obj split: option.splits)
qed

lemma resolve_plugin_fatal_preset:
  "resolve_plugin test_host fatal_presets (Obj [(''preset'', Str ''ci''), (''id'', Str ''x'')])
     = Inr (fatal_presets,
            [(''preset'', Str ''ci''), (''id'', Str ''x''), (''fatal'', Bool True), (''processors'', Arr [])],
            None)"
  by (simp add: resolve_plugin_def fatal_presets_def bundle_of_def get_def lookup_def
        optional_get_def nullish_def merge3 deepMerge_def Let_def)

lemma resolve_plugin_fatal_explicit:
  "resolve_plugin test_host fatal_presets
       (Obj [(''preset'', Str ''ci''), (''id'', Str ''x''), (''fatal'', Bool False)])
     = Inr (fatal_presets,
            [(''preset'', Str ''ci''), (''id'', Str ''x''), (''fatal'', Bool False), (''processors'', Arr [])],
            None)"
  by (simp add: resolve_plugin_def fatal_presets_def bundle_of_def get_def lookup_def
        optional_get_def nullish_def merge3 deepMerge_def Let_def)

theorem cascade_precedence_witness:
  "resolve_plugin test_host fatal_presets (Obj [(''preset'', Str ''ci''), (''id'', Str ''x'')])
     = Inr (fatal_presets,
            [(''preset'', Str ''ci''), (''id'', Str ''x''), (''fatal'', Bool True), (''processors'', Arr [])],
            None)
   \<and> map_of [(''preset'', Str ''ci''), (''id'', Str ''x'')] ''fatal'' = None
   \<and> map_of (own_entries (optional_get (lookup fatal_presets ''ci'') ''plugins'')) ''fatal''
        = Some (Bool True)
   \<and> map_of (own_entries (get (lookup fatal_presets ''default'') ''plugins'')) ''fatal''
        = Some (Bool False)
   \<and> map_of [(''preset'', Str ''ci''), (''id'', Str ''x''), (''fatal'', Bool True),
              (''processors'', Arr [])] ''fatal'' = Some (Bool True)"
proof -
  let ?e = "[(''preset'', Str ''ci''), (''id'', Str ''x'')]"
  let ?r = "[(''preset'', Str ''ci''), (''id'', Str ''x''), (''fatal'', Bool True), (''processors'', Arr [])]"
  have 1: "resolve_plugin test_host fatal_presets (Obj ?e) = Inr (fatal_presets, ?r, None)"
    by (rule resolve_plugin_fatal_preset)
  have 2: "bundle_of test_host fatal_presets (get (Obj ?e) ''preset'') = lookup fatal_presets ''ci''"
    by (simp add: bundle_of_def get_def lookup_def)
  have 3: "distinct (object_keys (get (lookup fatal_presets ''default'') ''plugins''))"
    "distinct (object_keys (optional_get (lookup fatal_presets ''ci'') ''plugins''))"
    by (simp_all add: fatal_presets_def lookup_def get_def optional_get_def nullish_def object_keys_def)
  have 4: "distinct (map fst ?e)" by simp
  have 5: "''fatal'' \<noteq> ''processors''" by simp
  have 6: "map_of ?e ''fatal'' = None" by simp
  have 7: "map_of (own_entries (optional_get (lookup fatal_presets ''ci'') ''plugins'')) ''fatal''
        = Some (Bool True)"
    by (simp add: fatal_presets_def lookup_def get_def optional_get_def nullish_def)
  have 8: "map_of (own_entries (get (lookup fatal_presets ''default'') ''plugins'')) ''fatal''
        = Some (Bool False)"
    by (simp add: fatal_presets_def lookup_def get_def)
  note w = cascade_precedence[OF 1 refl 2 3 4 5]
  have 9: "map_of ?r ''fatal'' = Some (Bool True)"
    using w 6 7 by blast
  show ?thesis by (intro conjI) (fact 1 6 7 8 9)+
qed



lemma resolve_plugin_assigned:
  assumes "distinct (object_keys (get (lookup presets ''default'') ''plugins''))"
    and "distinct (object_keys (optional_get (bundle_of h presets (get d ''preset'')) ''plugins''))"
    and "distinct (object_keys d)"
  shows "map_of (assign (own_entries d)
       (merge [get (lookup presets ''default'') ''plugins'',
               optional_get (bundle_of h presets (get d ''preset'')) ''plugins'', d])) k
    = map_of (merge [get (lookup presets ''default'') ''plugins'',
               optional_get (bundle_of h presets (get d ''preset'')) ''plugins'', d]) k"
  using keys_merge3_last[of d]
  by (intro map_of_assign_cover distinct_merge3 assms) (simp add: object_keys_def)


lemmas cascade_simps =
  resolve_plugin_def resolve_processor_def bundle_of_def get_def lookup_def has_key_def
  object_keys_def optional_get_def nullish_def merge3 merge4 deepMerge_def Let_def



text \<open>
  Inside the cascade a \<^verbatim>\<open>preset\<close> that names no bundle adds nothing to the layers of the
  plugin or of a processor.  Where no bundle is called \<^verbatim>\<open>"undefined"\<close>, the plugin leaves the
  cascade as the same declaration without \<^verbatim>\<open>preset\<close> does, but for the key \<^verbatim>\<open>preset\<close>
  itself, which stays: a declaration without \<^verbatim>\<open>preset\<close> looks the bundle \<^verbatim>\<open>"undefined"\<close> up.
\<close>

lemma unresolved_layer_skipped:
  assumes "bundle_of h presets (get (Obj d) ''preset'') = Undef"
    and "distinct (map fst d)"
    and "distinct (object_keys (get (lookup presets ''default'') ''plugins''))"
  shows "merge [get (lookup presets ''default'') ''plugins'',
                optional_get (bundle_of h presets (get (Obj d) ''preset'')) ''plugins'', Obj d]
           = merge [get (lookup presets ''default'') ''plugins'', Obj d]
    \<and> (\<forall>b q. bundle_of h presets (get (Obj q) ''preset'') = Undef \<longrightarrow>
           resolve_processor h presets b (Obj q) =
             Inr (Obj (assign q (merge [get (lookup presets ''default'') ''processors'',
                                        optional_get b ''processors'', Obj q]))))
    \<and> (lookup presets ''undefined'' = Undef \<longrightarrow>
         (case (resolve_plugin h presets (Obj d),
                resolve_plugin h presets (Obj (delete ''preset'' d))) of
            (Inl e, Inl e') \<Rightarrow> e = e'
          | (Inr (p, r, s), Inr (p', r', s')) \<Rightarrow>
              p = p' \<and> s = s' \<and> (\<forall>k. k \<noteq> ''preset'' \<longrightarrow> map_of r k = map_of r' k)
          | _ \<Rightarrow> False))"
proof -
  let ?D = "get (lookup presets ''default'') ''plugins''"
  let ?d' = "delete ''preset'' d"
  have n: "nullish (optional_get Undef k)" for k
    by (simp add: optional_get_def nullish_def)
  have c1: "merge [?D, optional_get (bundle_of h presets (get (Obj d) ''preset'')) ''plugins'', Obj d]
           = merge [?D, Obj d]"
    unfolding assms(1) using merge_skip_nullish[OF n, of "[?D]" "''plugins''" "[Obj d]"] by simp
  have c2: "\<forall>b q. bundle_of h presets (get (Obj q) ''preset'') = Undef \<longrightarrow>
           resolve_processor h presets b (Obj q) =
             Inr (Obj (assign q (merge [get (lookup presets ''default'') ''processors'',
                                        optional_get b ''processors'', Obj q])))"
  proof (intro allI impI)
    fix b q
    assume a: "bundle_of h presets (get (Obj q) ''preset'') = Undef"
    show "resolve_processor h presets b (Obj q) =
             Inr (Obj (assign q (merge [get (lookup presets ''default'') ''processors'',
                                        optional_get b ''processors'', Obj q])))"
      using merge_skip_nullish[OF n, of "[get (lookup presets ''default'') ''processors'',
                 optional_get b ''processors'']" "''processors''" "[Obj q]"]
      by (simp add: resolve_processor_def a)
  qed
  have c3: "case (resolve_plugin h presets (Obj d), resolve_plugin h presets (Obj ?d')) of
            (Inl e, Inl e') \<Rightarrow> e = e'
          | (Inr (p, r, s), Inr (p', r', s')) \<Rightarrow>
              p = p' \<and> s = s' \<and> (\<forall>k. k \<noteq> ''preset'' \<longrightarrow> map_of r k = map_of r' k)
          | _ \<Rightarrow> False"
    if u: "lookup presets ''undefined'' = Undef"
  proof -
    have b': "bundle_of h presets (get (Obj ?d') ''preset'') = Undef"
      by (simp add: bundle_of_def get_def lookup_def map_of_delete u[unfolded lookup_def])
    let ?m = "merge [?D, optional_get Undef ''plugins'', Obj d]"
    let ?m' = "merge [?D, optional_get Undef ''plugins'', Obj ?d']"
    have d': "distinct (map fst ?d')" using assms(2) by (rule distinct_delete)
    have dn: "distinct (object_keys (optional_get Undef ''plugins''))"
      by (simp add: optional_get_def nullish_def object_keys_def)
    have a: "map_of (assign d ?m) k = map_of ?m k" for k
      using resolve_plugin_assigned[where d="Obj d" and h=h and presets=presets and k=k] assms dn
      by (simp add: object_keys_def)
    have a': "map_of (assign ?d' ?m') k = map_of ?m' k" for k
      using resolve_plugin_assigned[where d="Obj ?d'" and h=h and presets=presets and k=k]
        assms(3) d' dn b'
      by (simp add: object_keys_def)
    have mm: "map_of ?m k = map_of ?m' k" if "k \<noteq> ''preset''" for k
      using that by (simp add: merge3 map_of_deepMerge map_of_delete split: option.splits)
    have e: "map_of (assign d ?m) k = map_of (assign ?d' ?m') k" if "k \<noteq> ''preset''" for k
      using that by (simp add: a a' mm)
    then have l: "lookup (assign d ?m) ''processors'' = lookup (assign ?d' ?m') ''processors''"
      by (simp add: lookup_def)
    have hk: "has_key (Obj ?d') ''processors'' = has_key (Obj d) ''processors''"
      by (auto simp: has_key_def object_keys_def keys_delete)
    have hu: "\<not> has_key (optional_get Undef ''plugins'') ''processors''"
      by (simp add: optional_get_def nullish_def has_key_def object_keys_def)
    show ?thesis
      unfolding resolve_plugin_def Let_def own_entries.simps assms(1) b' l hk
      using hu e
      by (cases "lookup (assign ?d' ?m') ''processors''")
         (auto simp: map_of_put split: sum.splits)
  qed
  show ?thesis using c1 c2 c3 by (intro conjI impI)
qed

lemma resolve_plugin_unresolved_preset:
  "resolve_plugin test_host fatal_presets (Obj [(''preset'', Str ''nightly''), (''id'', Str ''x'')])
     = Inr (fatal_presets,
            [(''preset'', Str ''nightly''), (''id'', Str ''x''), (''fatal'', Bool False),
             (''processors'', Arr [])],
            None)"
  by (simp add: cascade_simps fatal_presets_def)

lemma resolve_plugin_no_preset:
  "resolve_plugin test_host fatal_presets (Obj [(''id'', Str ''x'')])
     = Inr (fatal_presets,
            [(''id'', Str ''x''), (''fatal'', Bool False), (''processors'', Arr [])],
            None)"
  by (simp add: cascade_simps fatal_presets_def)

lemma unresolved_layer_skipped_example:
  "bundle_of test_host fatal_presets
      (get (Obj [(''preset'', Str ''nightly''), (''id'', Str ''x'')]) ''preset'') = Undef
   \<and> lookup fatal_presets ''undefined'' = Undef
   \<and> merge [get (lookup fatal_presets ''default'') ''plugins'',
             optional_get (bundle_of test_host fatal_presets
               (get (Obj [(''preset'', Str ''nightly''), (''id'', Str ''x'')]) ''preset'')) ''plugins'',
             Obj [(''preset'', Str ''nightly''), (''id'', Str ''x'')]]
        = merge [get (lookup fatal_presets ''default'') ''plugins'',
                 Obj [(''preset'', Str ''nightly''), (''id'', Str ''x'')]]
   \<and> map_of [(''preset'', Str ''nightly''), (''id'', Str ''x''), (''fatal'', Bool False),
               (''processors'', Arr [])] |` (- {''preset''})
       = map_of [(''id'', Str ''x''), (''fatal'', Bool False), (''processors'', Arr [])]
           |` (- {''preset''})"
proof -
  let ?d = "[(''preset'', Str ''nightly''), (''id'', Str ''x'')]"
  have 1: "bundle_of test_host fatal_presets (get (Obj ?d) ''preset'') = Undef"
    by (simp add: bundle_of_def get_def lookup_def fatal_presets_def)
  have 2: "distinct (map fst ?d)" by simp
  have 3: "distinct (object_keys (get (lookup fatal_presets ''default'') ''plugins''))"
    by (simp add: fatal_presets_def lookup_def get_def object_keys_def)
  have 4: "lookup fatal_presets ''undefined'' = Undef"
    by (simp add: lookup_def fatal_presets_def)
  have 5: "delete ''preset'' ?d = [(''id'', Str ''x'')]"
    by (simp add: delete_def)
  note w = unresolved_layer_skipped[OF 1 2 3]
  have 6: "merge [get (lookup fatal_presets ''default'') ''plugins'',
             optional_get (bundle_of test_host fatal_presets (get (Obj ?d) ''preset'')) ''plugins'',
             Obj ?d]
        = merge [get (lookup fatal_presets ''default'') ''plugins'', Obj ?d]"
    using w by (elim conjE)
  have "case (resolve_plugin test_host fatal_presets (Obj ?d),
                resolve_plugin test_host fatal_presets (Obj (delete ''preset'' ?d))) of
            (Inl e, Inl e') \<Rightarrow> e = e'
          | (Inr (p, r, s), Inr (p', r', s')) \<Rightarrow>
              p = p' \<and> s = s' \<and> (\<forall>k. k \<noteq> ''preset'' \<longrightarrow> map_of r k = map_of r' k)
          | _ \<Rightarrow> False"
    using w 4 by (elim conjE) (erule mp)
  then have 7: "\<forall>k. k \<noteq> ''preset'' \<longrightarrow>
          map_of [(''preset'', Str ''nightly''), (''id'', Str ''x''), (''fatal'', Bool False),
                  (''processors'', Arr [])] k
          = map_of [(''id'', Str ''x''), (''fatal'', Bool False), (''processors'', Arr [])] k"
    unfolding 5 resolve_plugin_unresolved_preset resolve_plugin_no_preset
    by (simp only: prod.case sum.case) (elim conjE)
  have 8: "map_of [(''preset'', Str ''nightly''), (''id'', Str ''x''), (''fatal'', Bool False),
               (''processors'', Arr [])] |` (- {''preset''})
       = map_of [(''id'', Str ''x''), (''fatal'', Bool False), (''processors'', Arr [])]
           |` (- {''preset''})"
  proof (rule ext)
    fix k :: string
    show "(map_of [(''preset'', Str ''nightly''), (''id'', Str ''x''), (''fatal'', Bool False),
               (''processors'', Arr [])] |` (- {''preset''})) k
       = (map_of [(''id'', Str ''x''), (''fatal'', Bool False), (''processors'', Arr [])]
           |` (- {''preset''})) k"
    proof (cases "k = ''preset''")
      case True
      then show ?thesis by (simp add: restrict_map_def)
    next
      case False
      note e = 7[rule_format, OF False]
      show ?thesis using False by (simp only: restrict_map_def e)
    qed
  qed
  show ?thesis by (intro conjI) (fact 1 4 6 8)+
qed

section \<open>Web requests ignore what they strip\<close>

lemma webrequest_processor_eq:
  "extend (partial (pick (processor' h) [''id'', ''fatal'', ''args'']))
                [(''id'', shape_of (plugin' h) ''id'')]
   = ZodObject [(''id'', ZodString None [min_length 1]),
                (''fatal'', ZodOptional ZodBoolean),
                (''args'', ZodOptional (ZodRecord ZodUnknown))] Strip"
  by (simp add: extend_def partial_def pick_def processor'_def component_eq plugin'_eq shape_of_def)

lemma webrequest_eq:
  "webrequest h = ZodObject
     [(''mock'', ZodDefault ZodBoolean (Inr (Bool False))),
      (''plugins'', ZodDefault (ZodArray (web_plugin_schema h)) (Inr (Arr [])))] Strip"
  unfolding webrequest_def webrequest_processor_eq
  by (simp add: extend_def partial_def pick_def plugin'_eq web_plugin_schema_def
        web_processor_schema_def)

lemma parse_strip_cong:
  assumes "object_entries v = Some es" and "object_entries v' = Some es'"
    and "\<And>k s. (k, s) \<in> set shape \<Longrightarrow> parse s (lookup es k) = parse s (lookup es' k)"
    and "\<And>k. k \<in> fst ` set shape \<Longrightarrow> (k \<in> fst ` set es) = (k \<in> fst ` set es')"
  shows "parse (ZodObject shape Strip) v = parse (ZodObject shape Strip) v'"
proof -
  have c: "map (\<lambda>(k, s). parse s (lookup es k)) shape = map (\<lambda>(k, s). parse s (lookup es' k)) shape"
    using assms(3) by (intro map_cong) auto
  have o: "object_output (map fst shape) Strip es vs = object_output (map fst shape) Strip es' vs"
    for vs
  proof -
    have "filter (\<lambda>(k, v). v \<noteq> Undef \<or> k \<in> fst ` set es) (zip (map fst shape) vs)
        = filter (\<lambda>(k, v). v \<noteq> Undef \<or> k \<in> fst ` set es') (zip (map fst shape) vs)"
    proof (rule filter_cong[OF refl])
      fix x
      assume x: "x \<in> set (zip (map fst shape) vs)"
      obtain k w where kw: "x = (k, w)" by (cases x)
      from x have "k \<in> set (map fst shape)" unfolding kw by (rule set_zip_leftD)
      then have "k \<in> fst ` set shape" by simp
      from assms(4)[OF this]
      show "(case x of (k, v) \<Rightarrow> v \<noteq> Undef \<or> k \<in> fst ` set es)
          = (case x of (k, v) \<Rightarrow> v \<noteq> Undef \<or> k \<in> fst ` set es')"
        by (simp add: kw)
    qed
    then show ?thesis by (simp add: object_output_def)
  qed
  show ?thesis by (simp add: parse.simps(8) assms(1,2) c o split: sum.splits)
qed

lemma parse_array_cong:
  "(\<And>x. x \<in> set xs \<Longrightarrow> parse s (f x) = parse s x)
   \<Longrightarrow> parse (ZodArray s) (Arr (map f xs)) = parse (ZodArray s) (Arr xs)"
  by (simp add: parse.simps(9) comp_def cong: map_cong)

lemma map_of_filter_keys:
  "P k \<Longrightarrow> map_of (filter (\<lambda>e. P (fst e)) es) k = map_of es k"
  by (induction es) auto

lemma keys_filter_keys:
  "P k \<Longrightarrow> k \<in> fst ` set (filter (\<lambda>e. P (fst e)) es) \<longleftrightarrow> k \<in> fst ` set es"
  by (induction es) auto

lemma map_of_map_value:
  "map_of (map (\<lambda>e. if fst e = j then (fst e, g (snd e)) else e) es) k
     = (if k = j then map_option g (map_of es k) else map_of es k)"
  by (induction es) auto

lemma keys_map_value:
  "fst ` set (map (\<lambda>e. if fst e = j then (fst e, g (snd e)) else e) es) = fst ` set es"
  by (induction es) auto

lemma parse_web_processor: "parse web_processor_schema (web_processor q) = parse web_processor_schema q"
proof (cases q)
  case (Obj es)
  let ?P = "\<lambda>k. k \<in> {''id'', ''fatal'', ''args''}"
  have "parse web_processor_schema (Obj (filter (\<lambda>e. ?P (fst e)) es)) = parse web_processor_schema (Obj es)"
    unfolding web_processor_schema_def
  proof (rule parse_strip_cong)
    fix k s
    assume "(k, s) \<in> set [(''id'', ZodString None [min_length 1]),
                (''fatal'', ZodOptional ZodBoolean),
                (''args'', ZodOptional (ZodRecord ZodUnknown))]"
    then have "?P k" by auto
    then show "parse s (lookup (filter (\<lambda>e. ?P (fst e)) es) k) = parse s (lookup es k)"
      by (simp only: lookup_def map_of_filter_keys[of ?P])
  next
    fix k :: string
    assume "k \<in> fst ` set [(''id'', ZodString None [min_length 1]),
                (''fatal'', ZodOptional ZodBoolean),
                (''args'', ZodOptional (ZodRecord ZodUnknown))]"
    then have "?P k" by auto
    then show "(k \<in> fst ` set (filter (\<lambda>e. ?P (fst e)) es)) = (k \<in> fst ` set es)"
      by (rule keys_filter_keys[of ?P])
  qed simp_all
  then show ?thesis using Obj by (simp add: web_processor_def)
qed (simp_all add: web_processor_def)

lemma parse_web_processors:
  "parse (ZodOptional (ZodArray web_processor_schema)) (web_processors v)
     = parse (ZodOptional (ZodArray web_processor_schema)) v"
proof (cases v)
  case (Arr qs)
  then show ?thesis
    by (simp add: web_processors_def parse.simps(12) parse_array_cong parse_web_processor)
qed (simp_all add: web_processors_def)

lemma parse_web_plugin: "parse (web_plugin_schema h) (web_plugin p) = parse (web_plugin_schema h) p"
proof (cases p)
  case (Obj es)
  let ?P = "\<lambda>k. k \<notin> {''token'', ''api'', ''retries'', ''mock''}"
  let ?es = "map (\<lambda>e. if fst e = ''processors'' then (fst e, web_processors (snd e)) else e)
                 (filter (\<lambda>e. ?P (fst e)) es)"
  let ?shape = "[(''id'', ZodOptional (ZodString None [min_length 1])),
      (''timezone'', ZodOptional (ZodRefine (ZodString None [min_length 1])
                       (\<lambda>value. value \<in> Str ` set (timezones h)))),
      (''handle'', ZodOptional (ZodNullable (ZodString (Some (js_String h)) [min_length 1]))),
      (''fatal'', ZodOptional ZodBoolean),
      (''entity'', ZodOptional (ZodEnum entities)),
      (''template'', ZodOptional (ZodUnion
         [ZodLiteralNull,
          ZodString (Some (js_String h)) [url h],
          ZodString (Some (js_String h)) [min_length 1]])),
      (''args'', ZodOptional (ZodRecord ZodUnknown)),
      (''processors'', ZodOptional (ZodArray web_processor_schema))]"
  have m: "map_of ?es k = (if k = ''processors'' then map_option web_processors (map_of es k)
                           else map_of es k)" if "?P k" for k
    unfolding map_of_map_value map_of_filter_keys[of ?P, OF that] ..
  have mp: "map_of ?es ''processors'' = map_option web_processors (map_of es ''processors'')"
    using m[of "''processors''"] by simp
  have mo: "map_of ?es k = map_of es k" if "k \<noteq> ''processors''" "?P k" for k
    using m[OF that(2)] that(1) by simp
  have "parse (ZodObject ?shape Strip) (Obj ?es) = parse (ZodObject ?shape Strip) (Obj es)"
  proof (rule parse_strip_cong)
    fix k s
    assume ks: "(k, s) \<in> set ?shape"
    then have P: "?P k" by auto
    show "parse s (lookup ?es k) = parse s (lookup es k)"
    proof (cases "k = ''processors''")
      case True
      then have s: "s = ZodOptional (ZodArray web_processor_schema)" using ks by auto
      show ?thesis
      proof (cases "map_of es ''processors''")
        case None
        then show ?thesis unfolding True lookup_def mp by simp
      next
        case (Some v)
        then show ?thesis unfolding True lookup_def mp s
          by (simp add: parse_web_processors)
      qed
    next
      case False
      then show ?thesis unfolding lookup_def mo[OF False P] by simp
    qed
  next
    fix k :: string
    assume "k \<in> fst ` set ?shape"
    then have "?P k" by auto
    then show "(k \<in> fst ` set ?es) = (k \<in> fst ` set es)"
      unfolding keys_map_value by (rule keys_filter_keys[of ?P])
  qed simp_all
  then show ?thesis using Obj by (simp add: web_plugin_def web_plugin_schema_def)
qed (simp_all add: web_plugin_def)

lemma parse_web_plugins:
  "parse (ZodDefault (ZodArray (web_plugin_schema h)) d) (web_plugins v)
     = parse (ZodDefault (ZodArray (web_plugin_schema h)) d) v"
proof (cases v)
  case (Arr ps)
  then show ?thesis
    by (simp add: web_plugins_def parse.simps(14) parse_array_cong parse_web_plugin)
qed (simp_all add: web_plugins_def)

lemma parse_web_visible: "parse (webrequest h) (web_visible v) = parse (webrequest h) v"
proof (cases v)
  case (Obj es)
  let ?es = "map (\<lambda>e. if fst e = ''plugins'' then (fst e, web_plugins (snd e)) else e) es"
  have mp: "map_of ?es ''plugins'' = map_option web_plugins (map_of es ''plugins'')"
    unfolding map_of_map_value by simp
  have mo: "map_of ?es k = map_of es k" if "k \<noteq> ''plugins''" for k
    unfolding map_of_map_value using that by simp
  have "parse (webrequest h) (Obj ?es) = parse (webrequest h) (Obj es)"
    unfolding webrequest_eq
  proof (rule parse_strip_cong)
    fix k s
    assume ks: "(k, s) \<in> set [(''mock'', ZodDefault ZodBoolean (Inr (Bool False))),
      (''plugins'', ZodDefault (ZodArray (web_plugin_schema h)) (Inr (Arr [])))]"
    show "parse s (lookup ?es k) = parse s (lookup es k)"
    proof (cases "k = ''plugins''")
      case True
      then have s: "s = ZodDefault (ZodArray (web_plugin_schema h)) (Inr (Arr []))"
        using ks by auto
      show ?thesis
      proof (cases "map_of es ''plugins''")
        case None
        then show ?thesis unfolding True lookup_def mp by simp
      next
        case (Some w)
        then show ?thesis unfolding True lookup_def mp s
          by (simp add: parse_web_plugins)
      qed
    next
      case False
      then show ?thesis unfolding lookup_def mo[OF False] by simp
    qed
  next
    fix k :: string
    show "(k \<in> fst ` set ?es) = (k \<in> fst ` set es)"
      unfolding keys_map_value ..
  qed simp_all
  then show ?thesis using Obj by (simp add: web_visible_def)
qed (simp_all add: web_visible_def)


text \<open>
  \<^bold>\<open>C9.\<close> Two payloads of a web request that differ only in plugin-level \<^verbatim>\<open>token\<close>,
  \<^verbatim>\<open>api\<close>, \<^verbatim>\<open>retries\<close> or \<^verbatim>\<open>mock\<close> entries, or in processor-level entries other than \<^verbatim>\<open>id\<close>,
  \<^verbatim>\<open>fatal\<close> and \<^verbatim>\<open>args\<close>, parse to the same result: the same value or the same failure.
\<close>

theorem webrequest_ignores_stripped_fields:
  assumes "web_visible payload = web_visible payload'"
  shows "parse (webrequest h) payload = parse (webrequest h) payload'"
  using parse_web_visible[of h payload] parse_web_visible[of h payload'] assms by simp


theorem webrequest_ignores_stripped_fields_witness:
  "web_visible (web_payload (Str ''ghp_stolen'')) = web_visible (web_payload (Num 99))
   \<and> web_payload (Str ''ghp_stolen'') \<noteq> web_payload (Num 99)
   \<and> parse (webrequest test_host) (web_payload (Str ''ghp_stolen''))
       = parse (webrequest test_host) (web_payload (Num 99))"
proof -
  have 1: "web_visible (web_payload (Str ''ghp_stolen'')) = web_visible (web_payload (Num 99))"
    by (simp add: web_payload_def web_visible_def web_plugins_def web_plugin_def
          web_processors_def web_processor_def)
  have 2: "web_payload (Str ''ghp_stolen'') \<noteq> web_payload (Num 99)"
    by (simp add: web_payload_def)
  show ?thesis
    using webrequest_ignores_stripped_fields[OF 1, of test_host] 1 2 by (intro conjI)
qed


lemma webrequest_example:
  "parse (webrequest test_host) (web_payload (Str ''ghp_stolen''))
     = Inr (Obj [(''mock'', Bool False),
                 (''plugins'', Arr [Obj [(''id'', Str ''followers''),
                    (''processors'', Arr [Obj [(''id'', Str ''render'')]])]])])"
  unfolding webrequest_eq
  by (simp add: web_payload_def parse.simps web_plugin_schema_def web_processor_schema_def
        lookup_def object_output_def min_length_def)

section \<open>The default bundle\<close>

lemma lookup_Nil: "lookup [] k = Undef"
  by (simp add: lookup_def)

lemma lookup_Cons: "lookup ((j, v) # es) k = (if k = j then v else lookup es k)"
  by (simp add: lookup_def)

lemma get_Obj: "get (Obj es) k = lookup es k"
  by (simp add: get_def)

lemma map_of_rev_once:
  "length (filter (\<lambda>j. j = k) (map fst xs)) \<le> 1 \<Longrightarrow> map_of (rev xs) k = map_of xs k"
proof (induction xs)
  case Nil
  then show ?case by simp
next
  case (Cons e xs)
  show ?case
  proof (cases "fst e = k")
    case True
    with Cons.prems have "filter (\<lambda>j. j = k) (map fst xs) = []" by (simp add: filter_map)
    then have "k \<notin> fst ` set xs" by (auto simp: filter_empty_conv)
    then have "map_of (rev xs) k = None" by (simp add: map_of_eq_None_iff)
    then show ?thesis using True by (cases e) (simp add: map_add_def)
  next
    case False
    with Cons have "map_of (rev xs) k = map_of xs k" by simp
    then show ?thesis using False by (cases e) (auto simp: map_add_def split: option.splits)
  qed
qed

lemma occurs_deepMerge:
  "k \<in> set (map fst r) \<Longrightarrow>
   filter (\<lambda>j. j = k) (map fst (deepMerge r other)) = filter (\<lambda>j. j = k) (map fst r)"
  by (auto simp: keys_deepMerge filter_empty_conv)

lemma keys_deepMerge_left: "set (map fst r) \<subseteq> set (map fst (deepMerge r other))"
  by (auto simp: keys_deepMerge)

lemma inherited_processors_empty:
  assumes "\<not> has_key d ''processors''"
    and "has_key b ''processors'' \<longrightarrow> b = plugin_defaults h"
  shows "lookup (assign (own_entries d) (merge [plugin_defaults h, b, d])) ''processors'' = Arr []"
proof -
  let ?k = "''processors''"
  let ?pd = "own_entries (plugin_defaults h)"
  let ?m = "merge [plugin_defaults h, b, d]"
  have pd: "?k \<in> set (map fst ?pd)" "filter (\<lambda>j. j = ?k) (map fst ?pd) = [?k]"
    "map_of ?pd ?k = Some (Arr [])"
    by (simp_all add: plugin_defaults_def)
  have "?k \<in> set (map fst (deepMerge ?pd b))" using pd(1) keys_deepMerge_left by blast
  then have "filter (\<lambda>j. j = ?k) (map fst ?m) = [?k]"
    unfolding merge3 by (simp only: occurs_deepMerge pd(1) pd(2))
  then have once: "map_of (rev ?m) ?k = map_of ?m ?k"
    by (intro map_of_rev_once) simp
  have nd: "map_of (own_entries d) ?k = None"
    using assms(1) by (simp add: has_key_def object_keys_def map_of_eq_None_iff)
  have "map_of (own_entries b) ?k = None \<or> map_of (own_entries b) ?k = Some (Arr [])"
  proof (cases "has_key b ?k")
    case True
    with assms(2) show ?thesis using pd(3) by simp
  next
    case False
    then show ?thesis by (simp add: has_key_def object_keys_def map_of_eq_None_iff)
  qed
  then have "map_of ?m ?k = Some (Arr [])"
    using pd(3) nd by (auto simp: merge3 map_of_deepMerge)
  then show ?thesis by (simp add: lookup_def map_of_assign once)
qed

lemma write_back_default_empty:
  "lookup presets ''default'' = preset_defaults h \<Longrightarrow>
   lookup (write_back presets ''default'' (Arr [])) ''default'' = preset_defaults h"
  by (simp add: write_back_def Let_def lookup_put preset_defaults_def get_Obj lookup_Cons
        plugin_defaults_def)

lemma write_back_other:
  "name \<noteq> ''default'' \<Longrightarrow>
   lookup (write_back presets name v) ''default'' = lookup presets ''default''"
  by (simp add: write_back_def Let_def lookup_put)

lemma resolve_plugin_keeps_default:
  assumes "resolve_plugin h presets d = Inr (presets', resolved, shared)"
    and "lookup presets ''default'' = preset_defaults h"
  shows "lookup presets' ''default'' = preset_defaults h"
proof -
  let ?named_bundle = "bundle_of h presets (get d ''preset'')"
  let ?b = "optional_get ?named_bundle ''plugins''"
  let ?assigned = "assign (own_entries d) (merge [plugin_defaults h, ?b, d])"
  have D: "get (lookup presets ''default'') ''plugins'' = plugin_defaults h"
    by (simp add: assms(2) preset_defaults_def get_Obj lookup_Cons)
  consider (unchanged) "presets' = presets"
    | (written) processors resolved' name where
        "lookup ?assigned ''processors'' = Arr processors"
        "collect (map (resolve_processor h presets ?named_bundle) processors) = Inr resolved'"
        "\<not> has_key d ''processors''"
        "name = (if has_key ?b ''processors'' then js_String h (get d ''preset'') else ''default'')"
        "presets' = write_back presets name (Arr resolved')"
    using assms(1) unfolding resolve_plugin_def Let_def D
    by (auto split: jv.splits sum.splits if_splits)
  then show ?thesis
  proof cases
    case unchanged
    then show ?thesis using assms(2) by simp
  next
    case written
    show ?thesis
    proof (cases "name = ''default''")
      case False
      then show ?thesis using written(5) assms(2) by (simp add: write_back_other)
    next
      case True
      have "has_key ?b ''processors'' \<longrightarrow> ?b = plugin_defaults h"
      proof
        assume hk: "has_key ?b ''processors''"
        with True written(4) have "js_String h (get d ''preset'') = ''default''" by simp
        then have "?named_bundle = preset_defaults h" by (simp add: bundle_of_def assms(2))
        then show "?b = plugin_defaults h"
          by (simp add: optional_get_def nullish_def preset_defaults_def get_Obj lookup_Cons)
      qed
      from inherited_processors_empty[OF written(3) this]
      have "processors = []" using written(1) by simp
      with written(2) have "resolved' = []" by simp
      then show ?thesis using written(5) True assms(2) by (simp add: write_back_default_empty)
    qed
  qed
qed

lemma resolve_plugins_keep_default:
  "resolve_plugins h presets ds = Inr (presets', rs) \<Longrightarrow>
   lookup presets ''default'' = preset_defaults h \<Longrightarrow>
   lookup presets' ''default'' = preset_defaults h"
proof (induction ds arbitrary: presets presets' rs)
  case Nil
  then show ?case by simp
next
  case (Cons d ds)
  from Cons.prems(1) obtain p1 r1 s1 rest where
    1: "resolve_plugin h presets d = Inr (p1, r1, s1)"
    and 2: "resolve_plugins h p1 ds = Inr (presets', rest)"
    by (auto split: sum.splits prod.splits)
  from resolve_plugin_keeps_default[OF 1 Cons.prems(2)]
  show ?case using Cons.IH[OF 2] by simp
qed

lemma object_entries_own: "object_entries v = Some es \<Longrightarrow> own_entries v = es"
  by (cases v) auto

lemma parse_record_D:
  assumes "parse (ZodRecord s) v = Inr out"
  shows "\<exists>es ys. object_entries v = Some es
           \<and> collect (map (\<lambda>(k, x). parse s x) es) = Inr ys
           \<and> out = Obj (zip (map fst es) ys)"
  using assms by (auto simp: parse.simps(10) split: option.splits sum.splits)

lemma keys_zip_collect:
  "collect (map f es) = Inr ys \<Longrightarrow> map fst (zip (map fst es) ys) = map fst es"
  by (drule collect_length) (simp add: map_fst_zip)

lemma record_lookup:
  "collect (map (\<lambda>(k, x). f x) es) = Inr ys \<Longrightarrow> map_of es k = Some x \<Longrightarrow>
   \<exists>y. f x = Inr y \<and> map_of (zip (map fst es) ys) k = Some y"
proof (induction es arbitrary: ys)
  case Nil
  then show ?case by simp
next
  case (Cons e es)
  obtain j w where e: "e = (j, w)" by (cases e)
  from collect_Inr_D[OF Cons.prems(1)] obtain y ys' where y0: "f w = Inr y"
    "map (\<lambda>(k, x). f x) es = map Inr ys'" "ys = y # ys'"
    unfolding e by (auto simp: Cons_eq_map_conv)
  have y: "f w = Inr y" "collect (map (\<lambda>(k, x). f x) es) = Inr ys'" "ys = y # ys'"
    using y0 by (simp_all add: collect_map_Inr)
  show ?case
  proof (cases "j = k")
    case True
    then show ?thesis using Cons.prems(2) y unfolding e by simp
  next
    case False
    then have "map_of es k = Some x" using Cons.prems(2) unfolding e by simp
    from Cons.IH[OF y(2) this] show ?thesis using False y(3) unfolding e by simp
  qed
qed

lemma parse_config_value_D:
  assumes "parse config_value doc = Inr value"
  shows "\<exists>ps pr rest. own_entries value = (''plugins'', Arr ps) # (''presets'', Obj pr) # rest
           \<and> (has_key (Obj pr) ''default'' \<longrightarrow> has_key (get doc ''presets'') ''default'')"
proof -
  let ?A = "ZodDefault
         (ZodArray (ZodObject
            [(''preset'', ZodOptional (ZodString None [])),
             (''processors'', ZodOptional (ZodArray (ZodObject
                [(''preset'', ZodOptional (ZodString None []))] Passthrough)))]
            Passthrough))
         (Inr (Arr []))"
  let ?B = "ZodDefault (ZodRecord (ZodRecord ZodUnknown)) (Inr (Obj []))"
  from assms obtain es vs where es: "object_entries doc = Some es"
    and c: "collect [parse ?A (lookup es ''plugins''), parse ?B (lookup es ''presets'')] = Inr vs"
    and v0: "object_output [''plugins'', ''presets''] Passthrough es vs = Inr value"
    unfolding config_value_def
    by (auto simp: parse.simps(8) split: option.splits sum.splits)
  from collect_Inr_D[OF c] obtain a b where vs: "vs = [a, b]"
    and a: "parse ?A (lookup es ''plugins'') = Inr a"
    and b: "parse ?B (lookup es ''presets'') = Inr b"
    by (auto simp: Cons_eq_map_conv)
  note v = v0[unfolded vs]
  obtain ps where ps: "a = Arr ps"
    using a by (auto simp: parse.simps(14) parse.simps(9) split: if_splits jv.splits sum.splits)
  have "\<exists>pr. b = Obj pr \<and> (has_key (Obj pr) ''default'' \<longrightarrow> has_key (lookup es ''presets'') ''default'')"
  proof (cases "lookup es ''presets'' = Undef")
    case True
    then have "b = Obj []" using b by (simp add: parse.simps(14) parse.simps(10))
    then show ?thesis by (simp add: has_key_def object_keys_def)
  next
    case False
    then have "parse (ZodRecord (ZodRecord ZodUnknown)) (lookup es ''presets'') = Inr b"
      using b by (simp add: parse.simps(14))
    from parse_record_D[OF this] obtain pes ys where
      p: "object_entries (lookup es ''presets'') = Some pes"
      "collect (map (\<lambda>(k, x). parse (ZodRecord ZodUnknown) x) pes) = Inr ys"
      "b = Obj (zip (map fst pes) ys)" by blast
    have "map fst (zip (map fst pes) ys) = map fst pes"
      using p(2) by (rule keys_zip_collect)
    then have "object_keys b = object_keys (lookup es ''presets'')"
      unfolding p(3) object_keys_def own_entries.simps object_entries_own[OF p(1)] .
    then show ?thesis using p(3) by (simp add: has_key_def)
  qed
  then obtain pr where pr: "b = Obj pr"
    "has_key (Obj pr) ''default'' \<longrightarrow> has_key (lookup es ''presets'') ''default''" by blast
  have "get doc ''presets'' = lookup es ''presets''"
    using object_entries_own[OF es] by (simp add: get_def)
  moreover have "own_entries value = (''plugins'', Arr ps) # (''presets'', Obj pr)
       # filter (\<lambda>(k, v). k \<notin> set [''plugins'', ''presets'']) es"
    using v unfolding ps pr(1) by (auto simp: object_output_def)
  ultimately show ?thesis using pr(2) by auto
qed

lemma plugin_defaults_reparse:
  "loads h \<Longrightarrow> parse (preset_plugin' h) (plugin_defaults h) = Inr (plugin_defaults h)"
  by (simp add: loads_iff parse.simps preset_plugin'_eq lookup_Cons object_output_def secret_def
      min_length_def timezones_def plugin_defaults_def int_check_def positive_def at_least_def
      entities_def image_iff Suc_le_eq secret_transform_defined is_Secret_secret_transform
      secret_transform_def[of "secret_transform x" for x])

lemma processor_defaults_reparse:
  "parse (preset_processor' h) processor_defaults = Inr processor_defaults"
  by (simp add: parse.simps preset_processor'_eq lookup_Cons object_output_def
       processor_defaults_def int_check_def positive_def at_least_def)

lemma defaults_defined:
  "plugin_defaults h \<noteq> Undef" "processor_defaults \<noteq> Undef" "preset_defaults h \<noteq> Undef"
  by (simp_all add: plugin_defaults_def processor_defaults_def preset_defaults_def)

lemma parse_preset_empty: "loads h \<Longrightarrow> parse (preset h) (Obj []) = Inr (preset_defaults h)"
  by (simp add: preset_def parse.simps(8,14) lookup_Nil parse_preset_plugin'_loads throwing_def
       parse_preset_processor'_empty plugin_defaults_reparse processor_defaults_reparse
       object_output_def preset_defaults_def defaults_defined)

lemma preset_defaults_reparse:
  "loads h \<Longrightarrow> parse (preset h) (preset_defaults h) = Inr (preset_defaults h)"
  by (simp add: preset_def parse.simps(8,14) lookup_Cons parse_preset_plugin'_loads throwing_def
       parse_preset_processor'_empty plugin_defaults_reparse processor_defaults_reparse
       object_output_def preset_defaults_def defaults_defined)

lemma config_preprocess_D:
  assumes "config_preprocess h doc = Inr value"
  shows "\<exists>v0 presets presets' plugins.
     parse config_value doc = Inr v0
     \<and> (if \<not> truthy (get (get v0 ''presets'') ''default'')
         then throwing (parse (preset h) (Obj [])) =
                Inr (lookup presets ''default'')
              \<and> presets = put ''default'' (lookup presets ''default'') (own_entries (get v0 ''presets''))
         else presets = own_entries (get v0 ''presets''))
     \<and> resolve_plugins h presets (array_items (get v0 ''plugins'')) = Inr (presets', plugins)
     \<and> value = Obj (put ''presets'' (Obj presets')
                    (put ''plugins'' (Arr (map (returned_plugin presets') plugins))
                       (own_entries v0)))"
proof -
  from assms obtain v0 where v0: "parse config_value doc = Inr v0"
    by (cases "parse config_value doc") (auto simp: config_preprocess_def throwing_def)
  let ?pr = "own_entries (get v0 ''presets'')"
  let ?c = "if \<not> truthy (get (get v0 ''presets'') ''default'')
                 then (case throwing (parse (preset h) (Obj [])) of
                         Inl e \<Rightarrow> Inl e
                       | Inr d \<Rightarrow> Inr (put ''default'' d ?pr))
                 else Inr ?pr"
  from assms v0 obtain presets where p: "?c = Inr presets"
    by (cases ?c) (auto simp: config_preprocess_def throwing_def)
  from assms v0 p obtain presets' plugins where
    r: "resolve_plugins h presets (array_items (get v0 ''plugins'')) = Inr (presets', plugins)"
    and v: "value = Obj (put ''presets'' (Obj presets')
                    (put ''plugins'' (Arr (map (returned_plugin presets') plugins))
                       (own_entries v0)))"
    by (cases "resolve_plugins h presets (array_items (get v0 ''plugins''))")
       (auto simp: config_preprocess_def throwing_def)
  have "if \<not> truthy (get (get v0 ''presets'') ''default'')
         then throwing (parse (preset h) (Obj [])) = Inr (lookup presets ''default'')
              \<and> presets = put ''default'' (lookup presets ''default'') ?pr
         else presets = ?pr"
    using p by (auto simp: lookup_put split: sum.splits if_splits)
  with v0 r v show ?thesis by blast
qed


text \<open>
  \<^bold>\<open>C3.\<close> On a host where the module loads, a document whose presets have no bundle
  \<^verbatim>\<open>default\<close> gets the bundle \<^verbatim>\<open>preset.parse({})\<close>, which holds exactly the defaults of the
  two preset schemas (\<open>plugin_defaults\<close> and \<open>processor_defaults\<close>): the cascade leaves
  it as it is, and so does the validation of the presets.
\<close>

theorem default_bundle_synthesized:
  assumes "loads h" and "\<not> has_key (get doc ''presets'') ''default''"
  shows "parse (preset h) (Obj []) = Inr (preset_defaults h)
    \<and> (\<forall>value. config_preprocess h doc = Inr value \<longrightarrow>
          get (get value ''presets'') ''default'' = preset_defaults h)
    \<and> (\<forall>cfg. parse (config h) doc = Inr cfg \<longrightarrow>
          get (get cfg ''presets'') ''default'' = preset_defaults h)"
proof -
  have pre: "\<exists>presets'. get value ''presets'' = Obj presets'
               \<and> lookup presets' ''default'' = preset_defaults h"
    if "config_preprocess h doc = Inr value" for "value"
  proof -
    from config_preprocess_D[OF that] obtain v0 presets presets' plugins where
      v0: "parse config_value doc = Inr v0"
      and c: "if \<not> truthy (get (get v0 ''presets'') ''default'')
         then throwing (parse (preset h) (Obj [])) = Inr (lookup presets ''default'')
              \<and> presets = put ''default'' (lookup presets ''default'') (own_entries (get v0 ''presets''))
         else presets = own_entries (get v0 ''presets'')"
      and r: "resolve_plugins h presets (array_items (get v0 ''plugins'')) = Inr (presets', plugins)"
      and v: "value = Obj (put ''presets'' (Obj presets')
                    (put ''plugins'' (Arr (map (returned_plugin presets') plugins))
                       (own_entries v0)))"
      by blast
    from parse_config_value_D[OF v0] obtain ps pr rest where
      o: "own_entries v0 = (''plugins'', Arr ps) # (''presets'', Obj pr) # rest"
      and k: "has_key (Obj pr) ''default'' \<longrightarrow> has_key (get doc ''presets'') ''default''"
      by blast
    have "get v0 ''presets'' = Obj pr" by (simp add: get_def o lookup_Cons)
    moreover have "lookup pr ''default'' = Undef"
      using k assms(2) by (auto simp: has_key_def object_keys_def lookup_absent)
    ultimately have "\<not> truthy (get (get v0 ''presets'') ''default'')"
      by (simp add: get_Obj)
    with c have "throwing (parse (preset h) (Obj [])) = Inr (lookup presets ''default'')"
      by simp
    then have "lookup presets ''default'' = preset_defaults h"
      by (simp add: parse_preset_empty[OF assms(1)] throwing_def)
    from resolve_plugins_keep_default[OF r this]
    have "lookup presets' ''default'' = preset_defaults h" .
    moreover have "get value ''presets'' = Obj presets'"
      by (simp add: v get_Obj lookup_put)
    ultimately show ?thesis by blast
  qed
  have c2: "\<forall>value. config_preprocess h doc = Inr value \<longrightarrow>
          get (get value ''presets'') ''default'' = preset_defaults h"
    using pre by (auto simp: get_Obj)
  have c3: "\<forall>cfg. parse (config h) doc = Inr cfg \<longrightarrow>
          get (get cfg ''presets'') ''default'' = preset_defaults h"
  proof (intro allI impI)
    fix cfg
    assume "parse (config h) doc = Inr cfg"
    then obtain "value" where pv: "config_preprocess h doc = Inr value"
      and cv: "parse (config' h) value = Inr cfg"
      by (auto simp: config_def parse.simps(17) split: sum.splits)
    from pre[OF pv] obtain presets' where
      g: "get value ''presets'' = Obj presets'"
      and d: "lookup presets' ''default'' = preset_defaults h" by blast
    let ?A = "ZodArray (ZodUnion [plugin h, plugin_nop h])"
    from cv obtain es vs where es: "object_entries value = Some es"
      and c: "collect [parse ?A (lookup es ''plugins''),
                       parse (ZodRecord (preset h)) (lookup es ''presets'')] = Inr vs"
      and out: "object_output [''plugins'', ''presets''] Strip es vs = Inr cfg"
      unfolding config'_def
      by (auto simp: parse.simps(8) split: option.splits sum.splits)
    from collect_Inr_D[OF c] obtain a b where vs: "vs = [a, b]"
      and b: "parse (ZodRecord (preset h)) (lookup es ''presets'') = Inr b"
      by (auto simp: Cons_eq_map_conv)
    have "lookup es ''presets'' = Obj presets'"
      using g object_entries_own[OF es] by (simp add: get_def)
    with b have b': "parse (ZodRecord (preset h)) (Obj presets') = Inr b" by simp
    from parse_record_D[OF b'] obtain ys where
      ys: "collect (map (\<lambda>(k, x). parse (preset h) x) presets') = Inr ys"
      and bz: "b = Obj (zip (map fst presets') ys)" by auto
    have "map_of presets' ''default'' = Some (preset_defaults h)"
      using d defaults_defined(3)[of h] by (auto simp: lookup_def split: option.splits)
    from record_lookup[OF ys this] obtain y where
      "parse (preset h) (preset_defaults h) = Inr y"
      "map_of (zip (map fst presets') ys) ''default'' = Some y" by blast
    then have "get b ''default'' = preset_defaults h"
      by (simp add: preset_defaults_reparse[OF assms(1)] bz get_Obj lookup_def)
    moreover have "b \<noteq> Undef" using bz by simp
    then have "get cfg ''presets'' = b"
      using out unfolding vs by (auto simp: object_output_def get_Obj lookup_Cons lookup_Nil)
    ultimately show "get (get cfg ''presets'') ''default'' = preset_defaults h" by simp
  qed
  show ?thesis using parse_preset_empty[OF assms(1)] c2 c3 by (intro conjI)
qed


lemma config_empty:
  "loads h \<Longrightarrow> parse (config h) (Obj []) =
     Inr (Obj [(''plugins'', Arr []), (''presets'', Obj [(''default'', preset_defaults h)])])"
  by (simp add: config_def parse.simps(17) config_preprocess_def config_value_def
        parse.simps(8) parse.simps(9) parse.simps(10) parse.simps(14) lookup_Nil lookup_Cons
        object_output_def throwing_def get_Obj parse_preset_empty returned_plugin_def
        config'_def preset_defaults_reparse defaults_defined)


theorem default_bundle_synthesized_witness:
  "loads test_host \<and> \<not> has_key (get (Obj []) ''presets'') ''default''
   \<and> parse (config test_host) (Obj []) =
       Inr (Obj [(''plugins'', Arr []),
                 (''presets'', Obj [(''default'', preset_defaults test_host)])])
   \<and> get (get (Obj [(''plugins'', Arr []),
                     (''presets'', Obj [(''default'', preset_defaults test_host)])])
             ''presets'') ''default'' = preset_defaults test_host
   \<and> get (get (get (preset_defaults test_host) ''plugins'') ''retries'') ''attempts'' = Num 3
   \<and> get (get (get (preset_defaults test_host) ''processors'') ''retries'') ''attempts'' = Num 1"
proof -
  have 1: "loads test_host" by (rule loads_test_host)
  have 2: "\<not> has_key (get (Obj []) ''presets'') ''default''"
    by (simp add: has_key_def object_keys_def get_Obj lookup_Nil)
  have 3: "parse (config test_host) (Obj []) =
       Inr (Obj [(''plugins'', Arr []),
                 (''presets'', Obj [(''default'', preset_defaults test_host)])])"
    by (rule config_empty[OF 1])
  have 4: "get (get (Obj [(''plugins'', Arr []),
                     (''presets'', Obj [(''default'', preset_defaults test_host)])])
             ''presets'') ''default'' = preset_defaults test_host"
    using default_bundle_synthesized[OF 1 2] 3 by blast
  have 5: "get (get (get (preset_defaults test_host) ''plugins'') ''retries'') ''attempts'' = Num 3"
    "get (get (get (preset_defaults test_host) ''processors'') ''retries'') ''attempts'' = Num 1"
    by (simp_all add: preset_defaults_def plugin_defaults_def processor_defaults_def get_Obj
          lookup_Cons)
  show ?thesis by (intro conjI) (fact 1 2 3 4 5)+
qed

text \<open>The declaration \<^verbatim>\<open>{ foo: {}, bar: {} }\<close> of a plugin, through the whole of \<^verbatim>\<open>config\<close>.\<close>

lemma test_host_simps:
  "supportedTimeZones test_host = [''Asia/Tokyo'', ''Europe/Paris'']"
  "resolvedTimeZone test_host = ''Europe/Paris''"
  "METRICS_GITHUB_TOKEN test_host = Str ''ghp_abc123''"
  "url test_host = (\<lambda>s. take 8 s = ''https://'')"
  "redacted test_host = ''[redacted]''"
  by (simp_all add: test_host_def)





section \<open>Plugins that name a preset\<close>

lemmas schema_simps =
  parse.simps strict_def extend_def preset_plugin'_eq plugin'_eq plugin_nop'_eq shape_of_def
  object_output_def lookup_Cons lookup_Nil secret_def secret_transform_def
  min_length_def int_check_def positive_def at_least_def entities_def timezones_def
  test_host_simps deepPartial_component

lemma plugin_nop_accepts:
  "parse (plugin_nop test_host) (Obj nop_resolved) =
     Inr (Obj [(''logs'', Str ''trace''), (''fatal'', Bool False),
                      (''mock'', Bool False),
                      (''api'', Str ''https://api.github.com''),
                      (''token'', Secret (Str ''ghp_abc123'')),
                      (''timezone'', Str ''Europe/Paris''),
                      (''handle'', Null), (''entity'', Str ''user''),
                      (''processors'', Arr []), (''template'', Null)])"
  by (simp add: plugin_nop_def nop_resolved_def schema_simps delete_def
        plugin_nop_removed_keys'_def)

lemma zip_has_key:
  "length vs = length ks \<Longrightarrow> k \<in> set ks \<Longrightarrow> \<exists>v. (k, v) \<in> set (zip ks vs)"
  by (metis in_set_impl_in_set_zip1)

lemma object_output_keeps_key:
  assumes "object_output ks u es vs = Inr out" and "length vs = length ks"
    and "k \<in> set ks" and "k \<in> fst ` set es"
  shows "has_key out k"
proof -
  from zip_has_key[OF assms(2,3)] obtain v where v: "(k, v) \<in> set (zip ks vs)" by blast
  let ?pairs = "filter (\<lambda>(k, v). v \<noteq> Undef \<or> k \<in> fst ` set es) (zip ks vs)"
  have "(k, v) \<in> set ?pairs" using v assms(4) by simp
  then have k: "k \<in> fst ` set ?pairs" by (rule key_in)
  have "\<exists>r. out = Obj r \<and> set ?pairs \<subseteq> set r"
    using assms(1) by (cases u) (auto simp: object_output_def split: if_splits)
  then obtain r where r: "out = Obj r" "set ?pairs \<subseteq> set r" by blast
  from k r(2) have "k \<in> fst ` set r" by blast
  then show ?thesis by (simp add: r(1) has_key_def object_keys_def)
qed

lemma parse_object_keeps_key:
  assumes "parse (ZodObject shape u) (Obj es) = Inr out"
    and "k \<in> fst ` set shape" and "k \<in> fst ` set es"
  shows "has_key out k"
proof -
  from assms(1) obtain vs where
    c: "collect (map (\<lambda>(k, s). parse s (lookup es k)) shape) = Inr vs"
    and o: "object_output (map fst shape) u es vs = Inr out"
    by (auto simp: parse.simps(8) split: sum.splits)
  have "length vs = length (map fst shape)" using collect_length[OF c] by simp
  from object_output_keeps_key[OF o this] assms(2,3) show ?thesis by simp
qed

lemma plugin_nop'_rejects_preset:
  assumes "''preset'' \<in> fst ` set es"
  shows "isl (parse (plugin_nop' h) (Obj es))"
  unfolding plugin_nop'_eq using assms
  by (intro parse_transform_fails parse_strict_extra_key[where k="''preset''" and es=es]) simp_all

lemma keys_foldl_delete:
  "fst ` set (foldl (\<lambda>result key. delete key result) es ks) = fst ` set es - set ks"
  by (induction ks arbitrary: es) (auto simp: keys_delete)

lemma plugin_nop_rejects_preset:
  assumes "''preset'' \<in> fst ` set es"
  shows "isl (parse (plugin_nop h) (Obj es))"
proof -
  let ?inner = "strict (extend (preset_plugin' h) [(''preset'', ZodOptional (ZodString None []))])"
  show ?thesis
  proof (cases "parse ?inner (Obj es)")
    case (Inl e)
    then show ?thesis using plugin_nop'_rejects_preset[OF assms, of h]
      by (cases e) (simp_all add: plugin_nop_def parse.simps(17))
  next
    case (Inr data)
    have "''preset'' \<in> set (map fst (entries_of ?inner))"
      unfolding nop_declaration_keys by simp
    then have k: "''preset'' \<in> fst ` set (entries_of ?inner)" by simp
    have "parse (ZodObject (entries_of ?inner) Strict) (Obj es) = Inr data"
      using Inr strict_is_object by metis
    from parse_object_keeps_key[OF this k assms]
    have "''preset'' \<in> fst ` set (own_entries data)"
      by (simp add: has_key_def object_keys_def)
    then have "''preset'' \<in> fst ` set (foldl (\<lambda>result key. delete key result)
                   (own_entries data) plugin_nop_removed_keys')"
      unfolding keys_foldl_delete by (simp add: plugin_nop_removed_keys'_def)
    from plugin_nop'_rejects_preset[OF this, of h] show ?thesis
      using Inr by (simp add: plugin_nop_def parse.simps(17))
  qed
qed

lemma declaration_rejects_args:
  assumes "lookup r ''args'' = Str s"
  shows "isl (parse (strict (extend (preset_plugin' h)
                      [(''id'', shape_of (plugin' h) ''id''),
                       (''preset'', ZodOptional (ZodString None []))])) (Obj r))"
proof -
  have "isl (parse (ZodDefault (ZodRecord ZodUnknown) (Inr (Obj []))) (lookup r ''args''))"
    using assms by (simp add: parse.simps(14) parse.simps(10))
  then show ?thesis
    unfolding strict_def
    by (intro parse_object_field_fails[where k="''args''" and es=r])
       (auto simp: preset_plugin'_eq extend_def)
qed

lemma plugin_rejects_preset_without_id:
  assumes "loads h" and "''id'' \<notin> fst ` set es" and "lookup es ''preset'' = Str s"
  shows "isl (parse (plugin h) (Obj es))"
proof (rule plugin_rejects_without_id[OF assms(2)])
  let ?keys = "plugin_keys' h"
  let ?unknown = "filter (\<lambda>key. key \<notin> set ?keys) (map fst es)"
  have pk: "''preset'' \<in> fst ` set es"
    using assms(3) by (auto simp: lookup_def split: option.splits dest!: map_of_SomeD intro: rev_image_eqI)
  have pu: "''preset'' \<in> set ?unknown"
    using pk by (simp add: plugin_keys'_eq[OF assms(1)])
  have "\<exists>r. sugar (Obj es) ?keys = Obj r
          \<and> (lookup r ''id'' = Undef \<or> lookup r ''id'' = Str '''' \<or> lookup r ''args'' = Str s)"
  proof (cases "truthy (lookup es ''args'') \<and> typeof_object (lookup es ''args'')
            \<and> object_keys (lookup es ''args'') \<noteq> []")
    case True
    then have "sugar (Obj es) ?keys = Obj es"
      using assms(2) by (simp add: sugar_def has_key_def object_keys_def Let_def)
    then show ?thesis using assms(2) by (simp add: lookup_absent)
  next
    case False
    note so = sugar_Obj[OF assms(2) False, of ?keys]
    show ?thesis
    proof (cases ?unknown rule: remdups_adj.cases)
      case 1
      then show ?thesis using pu by simp
    next
      case (2 name)
      then have "name = ''preset''" using pu by simp
      then show ?thesis using so 2 assms(3) by (simp add: lookup_put)
    next
      case (3 name other rest)
      have "map_of (rev es) ''id'' = None"
        using assms(2) by (simp add: map_of_eq_None_iff)
      then have "lookup (assign [(''id'', Str [])] es) ''id'' = Str []"
        by (simp add: lookup_def map_of_assign)
      then show ?thesis using so 3 by simp
    qed
  qed
  then obtain r where r: "sugar (Obj es) ?keys = Obj r"
    "lookup r ''id'' = Undef \<or> lookup r ''id'' = Str '''' \<or> lookup r ''args'' = Str s" by blast
  show "isl (parse (strict (extend (preset_plugin' h)
                      [(''id'', shape_of (plugin' h) ''id''),
                       (''preset'', ZodOptional (ZodString None []))]))
               (sugar (Obj es) ?keys))"
    unfolding r(1) using r(2) declaration_rejects_args[of r s h]
      strict_declaration_rejects_id[of "Obj r" r h]
    by auto
qed

lemma config_rejects_nop_with_preset:
  assumes "loads h" and "config_preprocess h doc = Inr v" and "get v ''plugins'' = Arr ps"
    and "Obj es \<in> set ps" and "''id'' \<notin> fst ` set es" and "lookup es ''preset'' = Str s"
  shows "isl (parse (config h) doc)"
proof -
  have pk: "''preset'' \<in> fst ` set es"
    using assms(6) by (auto simp: lookup_def split: option.splits dest!: map_of_SomeD intro: rev_image_eqI)
  have "isl (parse (config' h) v)"
    using assms(3,4) plugin_rejects_preset_without_id[OF assms(1,5,6)]
      plugin_nop_rejects_preset[OF pk, of h]
    by (rule config'_rejects_plugin)
  then show ?thesis using assms(2) by (simp add: config_def parse.simps(17))
qed

lemma ci_presets_after:
  "resolve_plugin test_host [(''ci'', ci_bundle), (''default'', preset_defaults test_host)]
      (Obj [(''preset'', Str ''ci'')])
    = Inr ([(''ci'', ci_bundle), (''default'', preset_defaults test_host)],
           ci_resolved [(''preset'', Str ''ci'')], Some ''default'')"
  by (simp add: cascade_simps preset_defaults_def plugin_defaults_def processor_defaults_def
       test_host_simps secret_transform_def write_back_def ci_resolved_def ci_bundle_def)

lemma ci_presets_after_id:
  "resolve_plugin test_host [(''ci'', ci_bundle), (''default'', preset_defaults test_host)]
      (Obj [(''preset'', Str ''ci''), (''id'', Str ''x'')])
    = Inr ([(''ci'', ci_bundle), (''default'', preset_defaults test_host)],
           ci_resolved [(''preset'', Str ''ci''), (''id'', Str ''x'')], Some ''default'')"
  by (simp add: cascade_simps preset_defaults_def plugin_defaults_def processor_defaults_def
       test_host_simps secret_transform_def write_back_def ci_resolved_def ci_bundle_def)

lemma shared_default_empty:
  "shared_processors [(''ci'', ci_bundle), (''default'', preset_defaults test_host)] ''default''
     = Arr []"
  by (simp add: shared_processors_def preset_defaults_def plugin_defaults_def get_Obj lookup_Cons)

lemma parse_config_value_ci:
  "parse config_value (ci_document [(''preset'', Str ''ci'')])
     = Inr (ci_document [(''preset'', Str ''ci'')])"
  "parse config_value (ci_document [(''id'', Str ''x''), (''preset'', Str ''ci'')])
     = Inr (ci_document [(''preset'', Str ''ci''), (''id'', Str ''x'')])"
  by (simp_all add: ci_document_def ci_bundle_def config_value_def parse.simps lookup_Cons
        lookup_Nil object_output_def)

lemma config_preprocess_ci:
  "config_preprocess test_host (ci_document [(''preset'', Str ''ci'')])
    = Inr (Obj [(''plugins'', Arr [Obj (ci_resolved [(''preset'', Str ''ci'')])]),
                (''presets'', Obj [(''ci'', ci_bundle), (''default'', preset_defaults test_host)])])"
proof -
  have "put ''processors'' (Arr []) (ci_resolved [(''preset'', Str ''ci'')])
          = ci_resolved [(''preset'', Str ''ci'')]"
    by (simp add: ci_resolved_def)
  then show ?thesis
    unfolding config_preprocess_def parse_config_value_ci
    by (simp add: ci_document_def throwing_def get_Obj lookup_Cons lookup_Nil
          parse_preset_empty[OF loads_test_host] ci_presets_after returned_plugin_def
          shared_default_empty)
qed

lemma config_preprocess_ci_id:
  "config_preprocess test_host (ci_document [(''id'', Str ''x''), (''preset'', Str ''ci'')])
    = Inr (Obj [(''plugins'', Arr [Obj (ci_resolved [(''preset'', Str ''ci''), (''id'', Str ''x'')])]),
                (''presets'', Obj [(''ci'', ci_bundle), (''default'', preset_defaults test_host)])])"
proof -
  have "put ''processors'' (Arr []) (ci_resolved [(''preset'', Str ''ci''), (''id'', Str ''x'')])
          = ci_resolved [(''preset'', Str ''ci''), (''id'', Str ''x'')]"
    by (simp add: ci_resolved_def)
  then show ?thesis
    unfolding config_preprocess_def parse_config_value_ci
    by (simp add: ci_document_def throwing_def get_Obj lookup_Cons lookup_Nil
          parse_preset_empty[OF loads_test_host] ci_presets_after_id returned_plugin_def
          shared_default_empty)
qed

lemma plugin_accepts_preset:
  "parse (plugin test_host) (Obj (ci_resolved [(''preset'', Str ''ci''), (''id'', Str ''x'')]))
     = Inr (Obj [(''logs'', Str ''trace''), (''id'', Str ''x''), (''args'', Obj []),
                 (''retries'', Obj [(''attempts'', Num 3), (''delay'', Num 120)]),
                 (''fatal'', Bool True), (''mock'', Bool False),
                 (''api'', Str ''https://api.github.com''),
                 (''token'', Secret (Str ''ghp_abc123'')),
                 (''timezone'', Str ''Europe/Paris''), (''handle'', Null),
                 (''entity'', Str ''user''), (''template'', Str ''classic''),
                 (''processors'', Arr [])])"
  by (simp add: plugin_def ci_resolved_def schema_simps delete_def sugar_def has_key_def
        object_keys_def)

lemma plugin_rejects_nop:
  "parse (plugin test_host) (Obj nop_resolved) = Inl Issues"
  by (simp add: plugin_def nop_resolved_def schema_simps delete_def sugar_def has_key_def
        object_keys_def plugin_keys'_eq[OF loads_test_host])

lemma preset_ci_bundle:
  "parse (preset test_host) ci_bundle =
     Inr (Obj [(''plugins'', Obj [(''args'', Obj []), (''logs'', Str ''trace''),
           (''api'', Str ''https://api.github.com''),
           (''token'', Secret (Str ''ghp_abc123'')), (''handle'', Null),
           (''entity'', Str ''user''), (''template'', Str ''classic''),
           (''timezone'', Str ''Europe/Paris''), (''mock'', Bool False),
           (''processors'', Arr []), (''fatal'', Bool True),
           (''retries'', Obj [(''attempts'', Num 3), (''delay'', Num 120)])]),
               (''processors'', processor_defaults)])"
  by (simp add: preset_def ci_bundle_def schema_simps throwing_def
        parse_preset_processor'_empty processor_defaults_reparse defaults_defined)

lemma resolve_plugin_nop:
  "resolve_plugin test_host [(''ci'', ci_bundle), (''default'', preset_defaults test_host)] (Obj [])
    = Inr ([(''ci'', ci_bundle), (''default'', preset_defaults test_host)],
           nop_resolved, Some ''default'')"
  by (simp add: cascade_simps preset_defaults_def plugin_defaults_def processor_defaults_def
       test_host_simps secret_transform_def write_back_def nop_resolved_def ci_bundle_def)

lemma config_preprocess_nop:
  "config_preprocess test_host (ci_document [])
    = Inr (Obj [(''plugins'', Arr [Obj nop_resolved]),
                (''presets'', Obj [(''ci'', ci_bundle), (''default'', preset_defaults test_host)])])"
proof -
  have 1: "parse config_value (ci_document []) = Inr (ci_document [])"
    by (simp add: ci_document_def ci_bundle_def config_value_def parse.simps lookup_Cons
        lookup_Nil object_output_def)
  have "put ''processors'' (Arr []) nop_resolved = nop_resolved"
    by (simp add: nop_resolved_def)
  then show ?thesis
    unfolding config_preprocess_def 1
    by (simp add: ci_document_def throwing_def get_Obj lookup_Cons lookup_Nil
          parse_preset_empty[OF loads_test_host] resolve_plugin_nop returned_plugin_def
          shared_default_empty)
qed

lemma parse_ci_presets:
  "parse (ZodRecord (preset test_host))
         (Obj [(''ci'', ci_bundle), (''default'', preset_defaults test_host)])
     = Inr (get (ci_validated Undef) ''presets'')"
  by (simp add: parse.simps(10) preset_ci_bundle preset_defaults_reparse[OF loads_test_host]
        ci_validated_def get_Obj lookup_Cons)

text \<open>
  \<^bold>\<open>C5.\<close> The key \<^verbatim>\<open>preset\<close> is dropped from every plugin and processor, and a declaration
  that carries a preset reference still validates.  The schema \<^verbatim>\<open>plugin\<close> deletes the key
  after its first parse; \<^verbatim>\<open>plugin_nop\<close> admits the key in its first parse and does not delete
  it, so its strict second parse refuses it.  Hence the document
  \<^verbatim>\<open>{ plugins: [{ preset: "ci" }], presets: { ci: { plugins: { fatal: true } } } }\<close> is
  rejected, while the same document validates when the plugin is \<^verbatim>\<open>{}\<close>, and when it is
  \<^verbatim>\<open>{ id: "x", preset: "ci" }\<close>, in both cases without a key \<^verbatim>\<open>preset\<close> in the result.
\<close>

theorem nop_plugin_with_preset_rejected:
  "isl (parse (config test_host) (ci_document [(''preset'', Str ''ci'')]))
   \<and> parse (config test_host) (ci_document []) =
       Inr (ci_validated (Obj [(''logs'', Str ''trace''), (''fatal'', Bool False),
              (''mock'', Bool False), (''api'', Str ''https://api.github.com''),
              (''token'', Secret (Str ''ghp_abc123'')), (''timezone'', Str ''Europe/Paris''),
              (''handle'', Null), (''entity'', Str ''user''), (''processors'', Arr []),
              (''template'', Null)]))
   \<and> parse (config test_host) (ci_document [(''id'', Str ''x''), (''preset'', Str ''ci'')]) =
       Inr (ci_validated (Obj [(''logs'', Str ''trace''), (''id'', Str ''x''), (''args'', Obj []),
              (''retries'', Obj [(''attempts'', Num 3), (''delay'', Num 120)]),
              (''fatal'', Bool True), (''mock'', Bool False),
              (''api'', Str ''https://api.github.com''),
              (''token'', Secret (Str ''ghp_abc123'')), (''timezone'', Str ''Europe/Paris''),
              (''handle'', Null), (''entity'', Str ''user''), (''template'', Str ''classic''),
              (''processors'', Arr [])]))"
proof (intro conjI)
  show "isl (parse (config test_host) (ci_document [(''preset'', Str ''ci'')]))"
  proof (rule config_rejects_nop_with_preset[OF loads_test_host config_preprocess_ci])
    show "get (Obj [(''plugins'', Arr [Obj (ci_resolved [(''preset'', Str ''ci'')])]),
                (''presets'', Obj [(''ci'', ci_bundle), (''default'', preset_defaults test_host)])])
            ''plugins'' = Arr [Obj (ci_resolved [(''preset'', Str ''ci'')])]"
      by (simp add: get_Obj lookup_Cons)
    show "Obj (ci_resolved [(''preset'', Str ''ci'')]) \<in> set [Obj (ci_resolved [(''preset'', Str ''ci'')])]"
      by simp
    show "''id'' \<notin> fst ` set (ci_resolved [(''preset'', Str ''ci'')])"
      by (simp add: ci_resolved_def)
    show "lookup (ci_resolved [(''preset'', Str ''ci'')]) ''preset'' = Str ''ci''"
      by (simp add: ci_resolved_def lookup_Cons)
  qed
next
  show "parse (config test_host) (ci_document []) =
       Inr (ci_validated (Obj [(''logs'', Str ''trace''), (''fatal'', Bool False),
              (''mock'', Bool False), (''api'', Str ''https://api.github.com''),
              (''token'', Secret (Str ''ghp_abc123'')), (''timezone'', Str ''Europe/Paris''),
              (''handle'', Null), (''entity'', Str ''user''), (''processors'', Arr []),
              (''template'', Null)]))"
    unfolding config_def parse.simps(17) config_preprocess_nop
    by (simp add: config'_def parse.simps(8) parse.simps(9) parse.simps(11) lookup_Cons
          lookup_Nil object_output_def plugin_rejects_nop plugin_nop_accepts parse_ci_presets
          ci_validated_def get_Obj)
next
  show "parse (config test_host) (ci_document [(''id'', Str ''x''), (''preset'', Str ''ci'')]) =
       Inr (ci_validated (Obj [(''logs'', Str ''trace''), (''id'', Str ''x''), (''args'', Obj []),
              (''retries'', Obj [(''attempts'', Num 3), (''delay'', Num 120)]),
              (''fatal'', Bool True), (''mock'', Bool False),
              (''api'', Str ''https://api.github.com''),
              (''token'', Secret (Str ''ghp_abc123'')), (''timezone'', Str ''Europe/Paris''),
              (''handle'', Null), (''entity'', Str ''user''), (''template'', Str ''classic''),
              (''processors'', Arr [])]))"
    unfolding config_def parse.simps(17) config_preprocess_ci_id
    by (simp add: config'_def parse.simps(8) parse.simps(9) parse.simps(11) lookup_Cons
          lookup_Nil object_output_def plugin_accepts_preset parse_ci_presets
          ci_validated_def get_Obj)
qed

section \<open>Plugins that name a missing preset\<close>

lemma resolve_plugin_over_default:
  "resolve_plugin test_host [(''default'', preset_defaults test_host)] (Obj [])
    = Inr ([(''default'', preset_defaults test_host)], nop_resolved, Some ''default'')"
  "resolve_plugin test_host [(''default'', preset_defaults test_host)]
      (Obj [(''preset'', Str ''nightly'')])
    = Inr ([(''default'', preset_defaults test_host)],
           (''preset'', Str ''nightly'') # nop_resolved, Some ''default'')"
  "resolve_plugin test_host [(''default'', preset_defaults test_host)] (Obj [(''id'', Str ''x'')])
    = Inr ([(''default'', preset_defaults test_host)],
           (''id'', Str ''x'') # nop_resolved, Some ''default'')"
  "resolve_plugin test_host [(''default'', preset_defaults test_host)]
      (Obj [(''preset'', Str ''nightly''), (''id'', Str ''x'')])
    = Inr ([(''default'', preset_defaults test_host)],
           (''preset'', Str ''nightly'') # (''id'', Str ''x'') # nop_resolved, Some ''default'')"
  by (simp_all add: cascade_simps preset_defaults_def plugin_defaults_def processor_defaults_def
       test_host_simps secret_transform_def write_back_def nop_resolved_def)

lemma parse_config_value_plugin_document:
  "parse config_value (plugin_document []) =
     Inr (Obj [(''plugins'', Arr [Obj []]), (''presets'', Obj [])])"
  "parse config_value (plugin_document [(''preset'', Str ''nightly'')]) =
     Inr (Obj [(''plugins'', Arr [Obj [(''preset'', Str ''nightly'')]]), (''presets'', Obj [])])"
  "parse config_value (plugin_document [(''id'', Str ''x'')]) =
     Inr (Obj [(''plugins'', Arr [Obj [(''id'', Str ''x'')]]), (''presets'', Obj [])])"
  "parse config_value (plugin_document [(''id'', Str ''x''), (''preset'', Str ''nightly'')]) =
     Inr (Obj [(''plugins'', Arr [Obj [(''preset'', Str ''nightly''), (''id'', Str ''x'')]]),
               (''presets'', Obj [])])"
  by (simp_all add: plugin_document_def config_value_def parse.simps lookup_Cons lookup_Nil
        object_output_def)

lemma config_preprocess_plugin_document:
  assumes "parse config_value doc = Inr (Obj [(''plugins'', Arr [Obj e]), (''presets'', Obj [])])"
    and "resolve_plugin test_host [(''default'', preset_defaults test_host)] (Obj e)
           = Inr ([(''default'', preset_defaults test_host)], r, Some ''default'')"
    and "put ''processors'' (Arr []) r = r"
  shows "config_preprocess test_host doc
    = Inr (Obj [(''plugins'', Arr [Obj r]),
                (''presets'', Obj [(''default'', preset_defaults test_host)])])"
proof -
  have 2: "shared_processors [(''default'', preset_defaults test_host)] ''default'' = Arr []"
    by (simp add: shared_processors_def preset_defaults_def plugin_defaults_def get_Obj lookup_Cons)
  show ?thesis
    by (simp add: config_preprocess_def assms throwing_def get_Obj lookup_Cons lookup_Nil
          parse_preset_empty[OF loads_test_host] returned_plugin_def 2)
qed

lemma put_processors_resolved:
  "put ''processors'' (Arr []) nop_resolved = nop_resolved"
  "put ''processors'' (Arr []) ((''preset'', Str ''nightly'') # nop_resolved)
     = (''preset'', Str ''nightly'') # nop_resolved"
  "put ''processors'' (Arr []) ((''id'', Str ''x'') # nop_resolved)
     = (''id'', Str ''x'') # nop_resolved"
  "put ''processors'' (Arr []) ((''preset'', Str ''nightly'') # (''id'', Str ''x'') # nop_resolved)
     = (''preset'', Str ''nightly'') # (''id'', Str ''x'') # nop_resolved"
  by (simp_all add: nop_resolved_def)

lemma config_plugin_document:
  assumes "config_preprocess test_host doc
    = Inr (Obj [(''plugins'', Arr [Obj r]),
                (''presets'', Obj [(''default'', preset_defaults test_host)])])"
    and "parse (ZodUnion [plugin test_host, plugin_nop test_host]) (Obj r) = Inr out"
  shows "parse (config test_host) doc = Inr (default_validated out)"
  unfolding config_def parse.simps(17) assms(1)
  by (simp add: config'_def parse.simps(8) parse.simps(9) parse.simps(10) lookup_Cons
        lookup_Nil object_output_def assms(2) preset_defaults_reparse[OF loads_test_host]
        default_validated_def)

lemma plugin_accepts_unresolved_preset:
  "parse (plugin test_host) (Obj ((''preset'', Str ''nightly'') # (''id'', Str ''x'') # nop_resolved))
     = Inr (Obj [(''logs'', Str ''trace''), (''id'', Str ''x''), (''args'', Obj []),
                 (''retries'', Obj [(''attempts'', Num 3), (''delay'', Num 120)]),
                 (''fatal'', Bool False), (''mock'', Bool False),
                 (''api'', Str ''https://api.github.com''),
                 (''token'', Secret (Str ''ghp_abc123'')),
                 (''timezone'', Str ''Europe/Paris''), (''handle'', Null),
                 (''entity'', Str ''user''), (''template'', Str ''classic''),
                 (''processors'', Arr [])])"
  "parse (plugin test_host) (Obj ((''id'', Str ''x'') # nop_resolved))
     = Inr (Obj [(''logs'', Str ''trace''), (''id'', Str ''x''), (''args'', Obj []),
                 (''retries'', Obj [(''attempts'', Num 3), (''delay'', Num 120)]),
                 (''fatal'', Bool False), (''mock'', Bool False),
                 (''api'', Str ''https://api.github.com''),
                 (''token'', Secret (Str ''ghp_abc123'')),
                 (''timezone'', Str ''Europe/Paris''), (''handle'', Null),
                 (''entity'', Str ''user''), (''template'', Str ''classic''),
                 (''processors'', Arr [])])"
  by (simp_all add: plugin_def nop_resolved_def schema_simps delete_def sugar_def has_key_def
        object_keys_def)

text \<open>
  \<^bold>\<open>C7.\<close> A \<^verbatim>\<open>preset\<close> that names no bundle is never an error: its layer is skipped and the
  entry resolves as if the reference were absent.  The cascade does skip the layer, and the
  plugin \<^verbatim>\<open>{ id: "x", preset: "nightly" }\<close> validates to what \<^verbatim>\<open>{ id: "x" }\<close> validates to.  But
  \<^verbatim>\<open>plugin_nop\<close> does not delete the key \<^verbatim>\<open>preset\<close> that its first parse admits, so the
  document \<^verbatim>\<open>{ plugins: [{ preset: "nightly" }] }\<close> is rejected, while \<^verbatim>\<open>{ plugins: [{}] }\<close>
  validates.
\<close>

theorem nop_plugin_with_unresolved_preset_rejected:
  "isl (parse (config test_host) (plugin_document [(''preset'', Str ''nightly'')]))
   \<and> parse (config test_host) (plugin_document []) =
       Inr (default_validated (Obj [(''logs'', Str ''trace''), (''fatal'', Bool False),
              (''mock'', Bool False), (''api'', Str ''https://api.github.com''),
              (''token'', Secret (Str ''ghp_abc123'')), (''timezone'', Str ''Europe/Paris''),
              (''handle'', Null), (''entity'', Str ''user''), (''processors'', Arr []),
              (''template'', Null)]))
   \<and> parse (config test_host) (plugin_document [(''id'', Str ''x''), (''preset'', Str ''nightly'')])
       = parse (config test_host) (plugin_document [(''id'', Str ''x'')])
   \<and> parse (config test_host) (plugin_document [(''id'', Str ''x'')]) =
       Inr (default_validated (Obj [(''logs'', Str ''trace''), (''id'', Str ''x''), (''args'', Obj []),
              (''retries'', Obj [(''attempts'', Num 3), (''delay'', Num 120)]),
              (''fatal'', Bool False), (''mock'', Bool False),
              (''api'', Str ''https://api.github.com''),
              (''token'', Secret (Str ''ghp_abc123'')), (''timezone'', Str ''Europe/Paris''),
              (''handle'', Null), (''entity'', Str ''user''), (''template'', Str ''classic''),
              (''processors'', Arr [])]))"
proof -
  note pre = config_preprocess_plugin_document
  have 1: "isl (parse (config test_host) (plugin_document [(''preset'', Str ''nightly'')]))"
  proof (rule config_rejects_nop_with_preset[OF loads_test_host
           pre[OF parse_config_value_plugin_document(2) resolve_plugin_over_default(2)
                  put_processors_resolved(2)]])
    show "get (Obj [(''plugins'', Arr [Obj ((''preset'', Str ''nightly'') # nop_resolved)]),
                (''presets'', Obj [(''default'', preset_defaults test_host)])]) ''plugins''
            = Arr [Obj ((''preset'', Str ''nightly'') # nop_resolved)]"
      by (simp add: get_Obj lookup_Cons)
    show "Obj ((''preset'', Str ''nightly'') # nop_resolved)
            \<in> set [Obj ((''preset'', Str ''nightly'') # nop_resolved)]"
      by simp
    show "''id'' \<notin> fst ` set ((''preset'', Str ''nightly'') # nop_resolved)"
      by (simp add: nop_resolved_def)
    show "lookup ((''preset'', Str ''nightly'') # nop_resolved) ''preset'' = Str ''nightly''"
      by (simp add: lookup_Cons)
  qed
  have 2: "parse (config test_host) (plugin_document []) =
       Inr (default_validated (Obj [(''logs'', Str ''trace''), (''fatal'', Bool False),
              (''mock'', Bool False), (''api'', Str ''https://api.github.com''),
              (''token'', Secret (Str ''ghp_abc123'')), (''timezone'', Str ''Europe/Paris''),
              (''handle'', Null), (''entity'', Str ''user''), (''processors'', Arr []),
              (''template'', Null)]))"
    by (rule config_plugin_document[OF pre[OF parse_config_value_plugin_document(1)
              resolve_plugin_over_default(1) put_processors_resolved(1)]])
       (simp add: parse.simps(11) plugin_rejects_nop plugin_nop_accepts)
  have 3: "parse (config test_host) (plugin_document [(''id'', Str ''x''), (''preset'', Str ''nightly'')])
       = Inr (default_validated (Obj [(''logs'', Str ''trace''), (''id'', Str ''x''), (''args'', Obj []),
              (''retries'', Obj [(''attempts'', Num 3), (''delay'', Num 120)]),
              (''fatal'', Bool False), (''mock'', Bool False),
              (''api'', Str ''https://api.github.com''),
              (''token'', Secret (Str ''ghp_abc123'')), (''timezone'', Str ''Europe/Paris''),
              (''handle'', Null), (''entity'', Str ''user''), (''template'', Str ''classic''),
              (''processors'', Arr [])]))"
    by (rule config_plugin_document[OF pre[OF parse_config_value_plugin_document(4)
              resolve_plugin_over_default(4) put_processors_resolved(4)]])
       (simp add: parse.simps(11) plugin_accepts_unresolved_preset(1))
  have 4: "parse (config test_host) (plugin_document [(''id'', Str ''x'')])
       = Inr (default_validated (Obj [(''logs'', Str ''trace''), (''id'', Str ''x''), (''args'', Obj []),
              (''retries'', Obj [(''attempts'', Num 3), (''delay'', Num 120)]),
              (''fatal'', Bool False), (''mock'', Bool False),
              (''api'', Str ''https://api.github.com''),
              (''token'', Secret (Str ''ghp_abc123'')), (''timezone'', Str ''Europe/Paris''),
              (''handle'', Null), (''entity'', Str ''user''), (''template'', Str ''classic''),
              (''processors'', Arr [])]))"
    by (rule config_plugin_document[OF pre[OF parse_config_value_plugin_document(3)
              resolve_plugin_over_default(3) put_processors_resolved(3)]])
       (simp add: parse.simps(11) plugin_accepts_unresolved_preset(2))
  have 5: "parse (config test_host) (plugin_document [(''id'', Str ''x''), (''preset'', Str ''nightly'')])
       = parse (config test_host) (plugin_document [(''id'', Str ''x'')])"
    unfolding 3 4 by (rule refl)
  show ?thesis by (intro conjI) (fact 1 2 5 4)+
qed

end
